theory Spec2Isabelle
  imports Complex_Main "HOL-Library.Log_Nat"
begin

section \<open>JavaScript numbers\<close>

text \<open>
  Balances and amounts are values of the JavaScript type \<open>number\<close>: IEEE 754 binary64.
  A finite double is represented by the rational it denotes; the two infinities and NaN
  are separate constructors. The two zeros are identified: the operations the balance
  service applies to numbers (\<open>+\<close>, \<open>-\<close>, \<open><\<close>, \<open><=\<close>, \<open>isNaN\<close>) do not tell them apart.
\<close>

datatype number = Fin rat | PInf | NInf | NaN

text \<open>\<open>ilog2 q\<close> is the binary exponent of a positive rational: \<open>2 ^ ilog2 q \<le> q < 2 ^ (ilog2 q + 1)\<close>.\<close>

definition ilog2 :: "rat \<Rightarrow> int" where
  "ilog2 q = (case quotient_of q of (n, d) \<Rightarrow>
     (let k = bitlen n - bitlen d in if 2 powi k \<le> q then k else k - 1))"

definition round_half_even :: "rat \<Rightarrow> int" where
  "round_half_even x = (let f = \<lfloor>x\<rfloor>; r = x - of_int f in
     if r < 1/2 then f else if 1/2 < r then f + 1 else if even f then f else f + 1)"

text \<open>
  Rounding of an exact result to binary64, to nearest, ties to even: a significand of
  53 bits above the exponent \<open>e\<close> of the last place, which is at least \<open>-1074\<close> (gradual
  underflow); the largest finite double is \<open>(2^53 - 1) * 2^971\<close>, anything that rounds
  above it is an infinity.
\<close>

definition binary64 :: "rat \<Rightarrow> number" where
  "binary64 q = (if q = 0 then Fin 0 else
     (let a = \<bar>q\<bar>; e = max (ilog2 a - 52) (- 1074);
          m = round_half_even (a / 2 powi e)
      in if 971 < e \<or> (e = 971 \<and> 2 ^ 53 \<le> m) then (if 0 < q then PInf else NInf)
         else Fin (sgn q * (of_int m * 2 powi e))))"

text \<open>A rational is a double when rounding leaves it as it is.\<close>

definition is_double :: "rat \<Rightarrow> bool" where
  "is_double q = (binary64 q = Fin q)"

definition representable :: "number \<Rightarrow> bool" where
  "representable x = (case x of Fin q \<Rightarrow> is_double q | _ \<Rightarrow> True)"

fun js_neg :: "number \<Rightarrow> number" where
  "js_neg (Fin q) = Fin (- q)"
| "js_neg PInf = NInf"
| "js_neg NInf = PInf"
| "js_neg NaN = NaN"

fun js_add :: "number \<Rightarrow> number \<Rightarrow> number" where
  "js_add NaN y = NaN"
| "js_add x NaN = NaN"
| "js_add (Fin a) (Fin b) = binary64 (a + b)"
| "js_add (Fin a) y = y"
| "js_add x (Fin b) = x"
| "js_add PInf NInf = NaN"
| "js_add NInf PInf = NaN"
| "js_add PInf PInf = PInf"
| "js_add NInf NInf = NInf"

definition js_sub :: "number \<Rightarrow> number \<Rightarrow> number" where
  "js_sub x y = js_add x (js_neg y)"

fun js_less :: "number \<Rightarrow> number \<Rightarrow> bool" where
  "js_less NaN y = False"
| "js_less x NaN = False"
| "js_less (Fin a) (Fin b) = (a < b)"
| "js_less (Fin a) PInf = True"
| "js_less (Fin a) NInf = False"
| "js_less PInf y = False"
| "js_less NInf NInf = False"
| "js_less NInf y = True"

definition js_le :: "number \<Rightarrow> number \<Rightarrow> bool" where
  "js_le x y = (x \<noteq> NaN \<and> y \<noteq> NaN \<and> (js_less x y \<or> x = y))"

definition isNaN :: "number \<Rightarrow> bool" where
  "isNaN x = (x = NaN)"

section \<open>JavaScript strings\<close>

text \<open>
  Strings are sequences of code units below 256. The white space that \<open>trim\<close> and
  \<open>parseFloat\<close> strip is, in that range, TAB, LF, VT, FF, CR, SPACE and NBSP.
\<close>

definition is_whitespace :: "char \<Rightarrow> bool" where
  "is_whitespace c = (c \<in> set [CHR 0x09, CHR 0x0A, CHR 0x0B, CHR 0x0C, CHR 0x0D, CHR 0x20, CHR 0xA0])"

definition trim :: "string \<Rightarrow> string" where
  "trim s = rev (dropWhile is_whitespace (rev (dropWhile is_whitespace s)))"

definition is_digit :: "char \<Rightarrow> bool" where
  "is_digit c = (c \<in> set ''0123456789'')"

definition digits_value :: "string \<Rightarrow> int" where
  "digits_value ds = foldl (\<lambda>acc c. 10 * acc + (of_char c - 48)) 0 ds"

text \<open>
  The grammar of \<open>parseFloat\<close> (ECMAScript, StrDecimalLiteral): after leading white
  space, an optional sign, then \<open>Infinity\<close> or decimal digits with an optional fraction
  and an optional exponent. The longest prefix of that form is taken, anything after it
  is ignored, and the result is NaN when no prefix has it.
\<close>

definition signed_integer :: "int \<Rightarrow> string \<Rightarrow> int" where
  "signed_integer sg s = (let ds = takeWhile is_digit s in
     if ds = [] then 0 else sg * digits_value ds)"

definition exponent_part :: "string \<Rightarrow> int" where
  "exponent_part s = (case s of
       [] \<Rightarrow> 0
     | c # r \<Rightarrow>
         if c = CHR ''e'' \<or> c = CHR ''E'' then
           (case r of
              [] \<Rightarrow> 0
            | d # ds \<Rightarrow>
                if d = CHR ''+'' then signed_integer 1 ds
                else if d = CHR ''-'' then signed_integer (- 1) ds
                else signed_integer 1 r)
         else 0)"

definition str_unsigned_decimal :: "string \<Rightarrow> number" where
  "str_unsigned_decimal s =
     (if take 8 s = ''Infinity'' then PInf
      else
        (let ip = takeWhile is_digit s; r1 = dropWhile is_digit s;
             fp = (case r1 of [] \<Rightarrow> [] | c # t \<Rightarrow> if c = CHR ''.'' then takeWhile is_digit t else []);
             r2 = (case r1 of [] \<Rightarrow> [] | c # t \<Rightarrow> if c = CHR ''.'' then dropWhile is_digit t else r1)
         in if ip = [] \<and> fp = [] then NaN
            else binary64 (of_int (digits_value (ip @ fp)) * 10 powi (exponent_part r2 - int (length fp)))))"

definition parseFloat :: "string \<Rightarrow> number" where
  "parseFloat s = (case dropWhile is_whitespace s of
       [] \<Rightarrow> NaN
     | c # r \<Rightarrow>
         if c = CHR ''-'' then js_neg (str_unsigned_decimal r)
         else if c = CHR ''+'' then str_unsigned_decimal r
         else str_unsigned_decimal (c # r))"

section \<open>Types of the balance service\<close>

record TransactRequest =
  idempotentKey :: string
  userId :: string
  amount :: string
  type :: string

record BalanceResponse =
  userId :: string
  balance :: number

record TransactionResponse =
  success :: bool
  idempotentKey :: string
  userId :: string
  amount :: string
  type :: string
  newBalance :: number
  message :: string

text \<open>
  The items of the table. The attributes \<open>PK\<close> and \<open>SK\<close> of an item are the key under
  which the table holds it. A version is a counter that starts at 1 and grows by 1: it is
  an integer far below \<open>2^53\<close>, where adding 1 to a double is exact (lemma
  \<open>js_add_one_exact\<close> below), and is represented by a natural number.
\<close>

record BalanceItem =
  userId :: string
  balance :: number
  version :: nat
  createdAt :: string
  updatedAt :: string

record TransactionItem =
  userId :: string
  idempotentKey :: string
  amount :: number
  type :: string
  status :: string
  timestamp :: string
  balanceAfter :: number

record IdempotencyItem =
  idempotentKey :: string
  userId :: string
  amount :: string
  type :: string
  newBalance :: number
  status :: string
  timestamp :: string
  ttl :: "int option"

text \<open>
  The error classes. \<open>BalanceError message code\<close> is the base class; each subclass fixes
  its code and builds its message from the arguments of its constructor, which are kept
  here as they are passed.
\<close>

datatype BalanceError =
    BalanceError string string
  | InsufficientFundsError string number number
  | InvalidAmountError string
  | RaceConditionError string

fun code :: "BalanceError \<Rightarrow> string" where
  "code (BalanceError msg c) = c"
| "code (InsufficientFundsError u b a) = ''INSUFFICIENT_FUNDS''"
| "code (InvalidAmountError a) = ''INVALID_AMOUNT''"
| "code (RaceConditionError u) = ''RACE_CONDITION''"

text \<open>
  What a call of the document client can throw: the exception class that the service
  tests for with \<open>instanceof\<close>, the class by which the client reports a cancelled
  transactional write, or any other error; each carries a message.
\<close>

datatype store_exn =
    ConditionalCheckFailedException string
  | TransactionCanceledException string
  | StoreError string

fun exn_message :: "store_exn \<Rightarrow> string" where
  "exn_message (ConditionalCheckFailedException m) = m"
| "exn_message (TransactionCanceledException m) = m"
| "exn_message (StoreError m) = m"

fun is_ConditionalCheckFailed :: "store_exn \<Rightarrow> bool" where
  "is_ConditionalCheckFailed (ConditionalCheckFailedException m) = True"
| "is_ConditionalCheckFailed (TransactionCanceledException m) = False"
| "is_ConditionalCheckFailed (StoreError m) = False"

datatype thrown = Balance BalanceError | Store store_exn

section \<open>The table and its keys\<close>

type_synonym key = "string \<times> string"

definition BALANCE_TTL_DAYS :: int where
  "BALANCE_TTL_DAYS = 30"

definition createUserBalanceKey :: "string \<Rightarrow> key" where
  "createUserBalanceKey uid = (''USER#'' @ uid, ''BALANCE'')"

definition createTransactionKey :: "string \<Rightarrow> string \<Rightarrow> string \<Rightarrow> key" where
  "createTransactionKey uid ts ik = (''USER#'' @ uid, ''TXN#'' @ ts @ ''#'' @ ik)"

definition createIdempotencyKey :: "string \<Rightarrow> key" where
  "createIdempotencyKey ik = (''TXN#'' @ ik, ''RESULT'')"

text \<open>
  One table, keyed by partition and sort key. The three kinds of item have sort keys that
  never coincide (\<open>BALANCE\<close>, \<open>RESULT\<close>, \<open>TXN#...\<close>; lemma \<open>key_kinds_disjoint\<close> below), and
  the service reads each key at the type of its kind, so the table is the three typed
  views of its contents.
\<close>

record table =
  balances :: "key \<rightharpoonup> BalanceItem"
  transactions :: "key \<rightharpoonup> TransactionItem"
  idempotency :: "key \<rightharpoonup> IdempotencyItem"

text \<open>
  The environment of one call of the service: the clock readings, the failures of the
  store calls (a call that fails changes nothing), the message with which the store
  cancels a transactional write whose condition fails, and what the other clients of
  the table do to it between the store calls of this one. A store call is atomic, a read
  returns the current contents of the table, and a number comes back from the table as
  the double that was put there.
\<close>

record env =
  timestamp :: string
  now :: int
  catchTimestamp :: string
  catchNow :: int
  getIdempotencyFault :: "store_exn option"
  getBalanceFault :: "store_exn option"
  commitFault :: "store_exn option"
  putFault :: "store_exn option"
  cancellationMessage :: string
  beforeGetBalance :: "table \<Rightarrow> table"
  beforeCommit :: "table \<Rightarrow> table"
  beforePut :: "table \<Rightarrow> table"

definition GetCommand :: "store_exn option \<Rightarrow> (key \<rightharpoonup> 'a) \<Rightarrow> key \<Rightarrow> store_exn + 'a option" where
  "GetCommand fault view k = (case fault of Some ex \<Rightarrow> Inl ex | None \<Rightarrow> Inr (view k))"

definition PutIdempotency :: "store_exn option \<Rightarrow> key \<Rightarrow> IdempotencyItem \<Rightarrow> table \<Rightarrow> store_exn + table" where
  "PutIdempotency fault k item tbl = (case fault of
       Some ex \<Rightarrow> Inl ex
     | None \<Rightarrow> Inr (tbl\<lparr>idempotency := (idempotency tbl)(k \<mapsto> item)\<rparr>))"

text \<open>
  The transactional write of the three items: all of them or none. The first put carries
  the condition \<open>attribute_not_exists(PK) OR version = :currentVersion\<close>. When the
  condition fails the write is cancelled as a whole, and the document client reports a
  cancelled transactional write by \<open>TransactionCanceledException\<close>
  (\<open>ConditionalCheckFailedException\<close> is what it raises for a failed condition of a
  single put, update or delete).
\<close>

definition condition_holds :: "table \<Rightarrow> key \<Rightarrow> nat \<Rightarrow> bool" where
  "condition_holds tbl k currentVersion =
     (case balances tbl k of None \<Rightarrow> True | Some b \<Rightarrow> BalanceItem.version b = currentVersion)"

definition TransactWriteCommand ::
  "env \<Rightarrow> key \<Rightarrow> BalanceItem \<Rightarrow> nat \<Rightarrow> key \<Rightarrow> TransactionItem \<Rightarrow> key \<Rightarrow> IdempotencyItem
     \<Rightarrow> table \<Rightarrow> store_exn + table" where
  "TransactWriteCommand e bk bitem currentVersion tk titem ik iitem tbl =
     (case commitFault e of
        Some ex \<Rightarrow> Inl ex
      | None \<Rightarrow>
          if condition_holds tbl bk currentVersion
          then Inr (tbl\<lparr>balances := (balances tbl)(bk \<mapsto> bitem),
                         transactions := (transactions tbl)(tk \<mapsto> titem),
                         idempotency := (idempotency tbl)(ik \<mapsto> iitem)\<rparr>)
          else Inl (TransactionCanceledException (cancellationMessage e)))"

section \<open>The transaction service\<close>

text \<open>Input validation of \<open>transact\<close>, in the order of the source; nothing is read before it.\<close>

definition validate :: "TransactRequest \<Rightarrow> BalanceError option" where
  "validate request =
     (if TransactRequest.idempotentKey request = [] \<or> trim (TransactRequest.idempotentKey request) = []
      then Some (BalanceError ''Invalid idempotentKey: must be a non-empty string'' ''INVALID_IDEMPOTENT_KEY'')
      else if TransactRequest.userId request = [] \<or> trim (TransactRequest.userId request) = []
      then Some (BalanceError ''Invalid userId: must be a non-empty string'' ''INVALID_USER_ID'')
      else if TransactRequest.amount request = [] \<or> trim (TransactRequest.amount request) = []
      then Some (InvalidAmountError (TransactRequest.amount request))
      else if isNaN (parseFloat (TransactRequest.amount request))
              \<or> js_le (parseFloat (TransactRequest.amount request)) (Fin 0)
      then Some (InvalidAmountError (TransactRequest.amount request))
      else if TransactRequest.type request \<notin> set [''credit'', ''debit'']
      then Some (BalanceError (''Invalid type: must be either '' @ [CHR 0x22] @ ''credit'' @ [CHR 0x22]
                                 @ '' or '' @ [CHR 0x22] @ ''debit'' @ [CHR 0x22])
                   ''INVALID_TRANSACTION_TYPE'')
      else None)"

text \<open>Step 1 of the \<open>try\<close> block: the response rebuilt from a stored idempotency item.\<close>

definition replay :: "TransactRequest \<Rightarrow> IdempotencyItem \<Rightarrow> TransactionResponse" where
  "replay request idempotencyItem =
     \<lparr>TransactionResponse.success = (IdempotencyItem.status idempotencyItem = ''completed''),
      TransactionResponse.idempotentKey = TransactRequest.idempotentKey request,
      TransactionResponse.userId = IdempotencyItem.userId idempotencyItem,
      TransactionResponse.amount = IdempotencyItem.amount idempotencyItem,
      TransactionResponse.type = IdempotencyItem.type idempotencyItem,
      TransactionResponse.newBalance = IdempotencyItem.newBalance idempotencyItem,
      TransactionResponse.message =
        (if IdempotencyItem.status idempotencyItem = ''completed''
         then ''Transaction already processed (idempotent)''
         else ''Transaction previously failed'')\<rparr>"

text \<open>Steps 4 and 5: the three items, the transactional write, and the response.\<close>

definition commit ::
  "env \<Rightarrow> TransactRequest \<Rightarrow> number \<Rightarrow> BalanceItem option \<Rightarrow> nat \<Rightarrow> number \<Rightarrow> table
     \<Rightarrow> (thrown + TransactionResponse) \<times> table" where
  "commit e request amt balanceResult currentVersion newBal tbl =
     (let ikey = TransactRequest.idempotentKey request;
          uid = TransactRequest.userId request;
          ts = env.timestamp e;
          balanceItem =
            \<lparr>BalanceItem.userId = uid,
             BalanceItem.balance = newBal,
             BalanceItem.version = currentVersion + 1,
             BalanceItem.createdAt =
               (case balanceResult of
                  None \<Rightarrow> ts
                | Some b \<Rightarrow> if BalanceItem.createdAt b = [] then ts else BalanceItem.createdAt b),
             BalanceItem.updatedAt = ts\<rparr>;
          transactionItem =
            \<lparr>TransactionItem.userId = uid,
             TransactionItem.idempotentKey = ikey,
             TransactionItem.amount = amt,
             TransactionItem.type = TransactRequest.type request,
             TransactionItem.status = ''completed'',
             TransactionItem.timestamp = ts,
             TransactionItem.balanceAfter = newBal\<rparr>;
          idempotencyItem =
            \<lparr>IdempotencyItem.idempotentKey = ikey,
             IdempotencyItem.userId = uid,
             IdempotencyItem.amount = TransactRequest.amount request,
             IdempotencyItem.type = TransactRequest.type request,
             IdempotencyItem.newBalance = newBal,
             IdempotencyItem.status = ''completed'',
             IdempotencyItem.timestamp = ts,
             IdempotencyItem.ttl = Some (env.now e div 1000 + BALANCE_TTL_DAYS * 24 * 60 * 60)\<rparr>
      in case TransactWriteCommand e (createUserBalanceKey uid) balanceItem currentVersion
                (createTransactionKey uid ts ikey) transactionItem
                (createIdempotencyKey ikey) idempotencyItem tbl of
           Inl ex \<Rightarrow>
             (if is_ConditionalCheckFailed ex then Inl (Balance (RaceConditionError uid))
              else Inl (Store ex), tbl)
         | Inr tbl' \<Rightarrow>
             (Inr \<lparr>TransactionResponse.success = True,
                   TransactionResponse.idempotentKey = ikey,
                   TransactionResponse.userId = uid,
                   TransactionResponse.amount = TransactRequest.amount request,
                   TransactionResponse.type = TransactRequest.type request,
                   TransactionResponse.newBalance = newBal,
                   TransactionResponse.message = ''Transaction completed successfully''\<rparr>, tbl'))"

text \<open>Step 2: what the service takes from the result of the balance read.\<close>

definition currentBalanceOf :: "BalanceItem option \<Rightarrow> number" where
  "currentBalanceOf balanceResult = (case balanceResult of None \<Rightarrow> Fin 0 | Some b \<Rightarrow> BalanceItem.balance b)"

definition currentVersionOf :: "BalanceItem option \<Rightarrow> nat" where
  "currentVersionOf balanceResult = (case balanceResult of None \<Rightarrow> 0 | Some b \<Rightarrow> BalanceItem.version b)"

text \<open>
  The \<open>try\<close> block, after validation: the result is the response or what was thrown,
  with the table as the store calls left it.
\<close>

definition transact_try ::
  "env \<Rightarrow> TransactRequest \<Rightarrow> number \<Rightarrow> table \<Rightarrow> (thrown + TransactionResponse) \<times> table" where
  "transact_try e request amt tbl =
     (case GetCommand (getIdempotencyFault e) (idempotency tbl)
             (createIdempotencyKey (TransactRequest.idempotentKey request)) of
        Inl ex \<Rightarrow> (Inl (Store ex), tbl)
      | Inr (Some idempotencyItem) \<Rightarrow> (Inr (replay request idempotencyItem), tbl)
      | Inr None \<Rightarrow>
          (let tbl1 = beforeGetBalance e tbl in
           case GetCommand (getBalanceFault e) (balances tbl1)
                  (createUserBalanceKey (TransactRequest.userId request)) of
             Inl ex \<Rightarrow> (Inl (Store ex), tbl1)
           | Inr balanceResult \<Rightarrow>
               (let currentBalance = currentBalanceOf balanceResult;
                    currentVersion = currentVersionOf balanceResult
                in if TransactRequest.type request = ''credit''
                   then commit e request amt balanceResult currentVersion
                          (js_add currentBalance amt) (beforeCommit e tbl1)
                   else if js_less (js_sub currentBalance amt) (Fin 0)
                   then (Inl (Balance (InsufficientFundsError (TransactRequest.userId request)
                                         currentBalance amt)), tbl1)
                   else commit e request amt balanceResult currentVersion
                          (js_sub currentBalance amt) (beforeCommit e tbl1))))"

text \<open>
  The \<open>catch\<close> block: the best-effort record of the failure, whose own failure is
  swallowed, then the error that leaves \<open>transact\<close>.
\<close>

definition failedIdempotencyItem :: "env \<Rightarrow> TransactRequest \<Rightarrow> IdempotencyItem" where
  "failedIdempotencyItem e request =
     \<lparr>IdempotencyItem.idempotentKey = TransactRequest.idempotentKey request,
      IdempotencyItem.userId = TransactRequest.userId request,
      IdempotencyItem.amount = TransactRequest.amount request,
      IdempotencyItem.type = TransactRequest.type request,
      IdempotencyItem.newBalance = Fin 0,
      IdempotencyItem.status = ''failed'',
      IdempotencyItem.timestamp = catchTimestamp e,
      IdempotencyItem.ttl = Some (catchNow e div 1000 + BALANCE_TTL_DAYS * 24 * 60 * 60)\<rparr>"

definition records_failure :: "thrown \<Rightarrow> bool" where
  "records_failure error =
     (case error of
        Store ex \<Rightarrow> True
      | Balance b \<Rightarrow>
          code b \<noteq> ''INVALID_IDEMPOTENT_KEY'' \<and> code b \<noteq> ''INVALID_USER_ID''
          \<and> code b \<noteq> ''INVALID_AMOUNT_FORMAT'' \<and> code b \<noteq> ''INVALID_TRANSACTION_TYPE'')"

definition rethrown :: "thrown \<Rightarrow> BalanceError" where
  "rethrown error =
     (case error of
        Balance b \<Rightarrow> b
      | Store ex \<Rightarrow> BalanceError (''Transaction failed: '' @ exn_message ex) ''TRANSACTION_ERROR'')"

definition recordFailure :: "env \<Rightarrow> TransactRequest \<Rightarrow> table \<Rightarrow> table" where
  "recordFailure e request tbl =
     (case PutIdempotency (putFault e)
             (createIdempotencyKey (TransactRequest.idempotentKey request))
             (failedIdempotencyItem e request) (beforePut e tbl) of
        Inl ex \<Rightarrow> beforePut e tbl
      | Inr tbl' \<Rightarrow> tbl')"

definition transact_catch :: "env \<Rightarrow> TransactRequest \<Rightarrow> thrown \<Rightarrow> table \<Rightarrow> BalanceError \<times> table" where
  "transact_catch e request error tbl =
     (rethrown error, if records_failure error then recordFailure e request tbl else tbl)"

definition transact :: "env \<Rightarrow> TransactRequest \<Rightarrow> table \<Rightarrow> (BalanceError + TransactionResponse) \<times> table" where
  "transact e request tbl =
     (case validate request of
        Some err \<Rightarrow> (Inl err, tbl)
      | None \<Rightarrow>
          (case transact_try e request (parseFloat (TransactRequest.amount request)) tbl of
             (Inr response, tbl') \<Rightarrow> (Inr response, tbl')
           | (Inl error, tbl') \<Rightarrow>
               (case transact_catch e request error tbl' of (err, tbl'') \<Rightarrow> (Inl err, tbl''))))"

section \<open>The balance reader\<close>

definition getCurrentBalance ::
  "store_exn option \<Rightarrow> string \<Rightarrow> table \<Rightarrow> (BalanceError + BalanceResponse) \<times> table" where
  "getCurrentBalance fault uid tbl =
     (if uid = [] \<or> trim uid = []
      then (Inl (BalanceError ''Invalid userId: must be a non-empty string'' ''INVALID_USER_ID''), tbl)
      else
        (case GetCommand fault (balances tbl) (createUserBalanceKey uid) of
           Inl ex \<Rightarrow>
             (Inl (BalanceError (''Failed to retrieve balance for user '' @ uid @ '': '' @ exn_message ex)
                     ''DATABASE_ERROR''), tbl)
         | Inr None \<Rightarrow> (Inr \<lparr>BalanceResponse.userId = uid, BalanceResponse.balance = Fin 0\<rparr>, tbl)
         | Inr (Some balanceItem) \<Rightarrow>
             (Inr \<lparr>BalanceResponse.userId = uid,
                   BalanceResponse.balance = BalanceItem.balance balanceItem\<rparr>, tbl)))"

section \<open>Sequences of calls\<close>

text \<open>A client that calls \<open>transact\<close> for each request in turn, each call in its own environment.\<close>

fun run :: "(env \<times> TransactRequest) list \<Rightarrow> table \<Rightarrow> (BalanceError + TransactionResponse) list \<times> table" where
  "run [] tbl = ([], tbl)"
| "run ((e, request) # rest) tbl =
     (case transact e request tbl of
        (r, tbl') \<Rightarrow> (case run rest tbl' of (rs, tbl'') \<Rightarrow> (r # rs, tbl'')))"

text \<open>
  What a client sees of a call: whether it reported success, and what a reported success
  does to a balance, in the arithmetic of the service.
\<close>

definition succeeded :: "BalanceError + TransactionResponse \<Rightarrow> bool" where
  "succeeded r = (case r of Inl err \<Rightarrow> False | Inr resp \<Rightarrow> TransactionResponse.success resp)"

definition applied :: "number \<Rightarrow> TransactRequest \<times> (BalanceError + TransactionResponse) \<Rightarrow> number" where
  "applied b rr =
     (case rr of (request, r) \<Rightarrow>
        if succeeded r
        then (if TransactRequest.type request = ''credit''
              then js_add b (parseFloat (TransactRequest.amount request))
              else js_sub b (parseFloat (TransactRequest.amount request)))
        else b)"



text \<open>An environment without failures and without other clients.\<close>

definition quiet :: "string \<Rightarrow> int \<Rightarrow> env" where
  "quiet ts ms =
     \<lparr>timestamp = ts, now = ms, catchTimestamp = ts, catchNow = ms,
      getIdempotencyFault = None, getBalanceFault = None, commitFault = None, putFault = None,
      cancellationMessage =
        ''Transaction cancelled, please refer cancellation reasons for specific reasons ''
        @ ''[ConditionalCheckFailed, None, None]'',
      beforeGetBalance = (\<lambda>t. t), beforeCommit = (\<lambda>t. t), beforePut = (\<lambda>t. t)\<rparr>"

text \<open>An environment in which no other client touches the table during the call.\<close>

definition alone :: "env \<Rightarrow> bool" where
  "alone e = (beforeGetBalance e = (\<lambda>t. t) \<and> beforeCommit e = (\<lambda>t. t) \<and> beforePut e = (\<lambda>t. t))"

definition empty_table :: table where
  "empty_table = \<lparr>balances = Map.empty, transactions = Map.empty, idempotency = Map.empty\<rparr>"

section \<open>Sample data\<close>

definition request_of :: "string \<Rightarrow> string \<Rightarrow> string \<Rightarrow> string \<Rightarrow> TransactRequest" where
  "request_of ik uid amt ty =
     \<lparr>TransactRequest.idempotentKey = ik, TransactRequest.userId = uid,
      TransactRequest.amount = amt, TransactRequest.type = ty\<rparr>"

definition completed_item :: IdempotencyItem where
  "completed_item =
     \<lparr>IdempotencyItem.idempotentKey = ''t1'', IdempotencyItem.userId = ''u1'',
      IdempotencyItem.amount = ''100'', IdempotencyItem.type = ''credit'',
      IdempotencyItem.newBalance = Fin 100, IdempotencyItem.status = ''completed'',
      IdempotencyItem.timestamp = ''2024-01-01T00:00:00.000Z'', IdempotencyItem.ttl = Some 1706659200\<rparr>"

definition replay_table :: table where
  "replay_table = empty_table\<lparr>idempotency := [createIdempotencyKey ''t1'' \<mapsto> completed_item]\<rparr>"

text \<open>The balances that the set-up script seeds: four users, each at version 1.\<close>

definition seedItem :: "string \<Rightarrow> number \<Rightarrow> BalanceItem" where
  "seedItem uid bal =
     \<lparr>BalanceItem.userId = uid, BalanceItem.balance = bal, BalanceItem.version = 1,
      BalanceItem.createdAt = ''2024-01-01T00:00:00.000Z'',
      BalanceItem.updatedAt = ''2024-01-01T00:00:00.000Z''\<rparr>"

definition seeded_table :: table where
  "seeded_table = empty_table\<lparr>balances :=
     [createUserBalanceKey ''user1'' \<mapsto> seedItem ''user1'' (Fin 1000),
      createUserBalanceKey ''user2'' \<mapsto> seedItem ''user2'' (Fin 500),
      createUserBalanceKey ''user3'' \<mapsto> seedItem ''user3'' (Fin 0),
      createUserBalanceKey ''user4'' \<mapsto> seedItem ''user4'' (Fin 2500)]\<rparr>"

text \<open>Two calls at two instants, and a call that another client's credit overtakes.\<close>

definition clock_a :: env where
  "clock_a = quiet ''2024-03-01T10:00:00.000Z'' 1709287200000"

definition clock_b :: env where
  "clock_b = quiet ''2024-03-01T10:00:00.250Z'' 1709287200250"

definition overtaken :: env where
  "overtaken = clock_b\<lparr>beforeCommit :=
     (\<lambda>t. snd (transact clock_a (request_of ''a'' ''user1'' ''100'' ''credit'') t))\<rparr>"

text \<open>The sequence of the repository's own precision test, on a user without a balance item.\<close>

definition precision_calls :: "(env \<times> TransactRequest) list" where
  "precision_calls =
     [(clock_a, request_of ''precision-0'' ''u1'' ''0.1'' ''credit''),
      (clock_b, request_of ''precision-1'' ''u1'' ''0.2'' ''credit''),
      (clock_b, request_of ''precision-2'' ''u1'' ''0.3'' ''debit'')]"



section \<open>Properties of the rounding\<close>

lemma two_powi_pos: "0 < (2::rat) powi k"
  by (simp add: zero_less_power_int)

lemma two_powi_mono: "a \<le> b \<Longrightarrow> (2::rat) powi a \<le> 2 powi b"
  by (rule power_int_increasing) simp_all

lemma ilog2_bounds:
  assumes "0 < q"
  shows "2 powi ilog2 q \<le> q" and "q < 2 powi (ilog2 q + 1)"
proof -
  obtain n d where nd: "quotient_of q = (n, d)" by (cases "quotient_of q")
  have d: "0 < d" using nd quotient_of_denom_pos by blast
  have q: "q = of_int n / of_int d" using nd quotient_of_div by blast
  have n: "0 < n" using assms d q by (simp add: zero_less_divide_iff)
  define bn where "bn = bitlen n"
  define bd where "bd = bitlen d"
  have bn1: "1 \<le> bn" using n bitlen_eq_zero_iff[of n] bitlen_nonneg[of n] unfolding bn_def by linarith
  have bd1: "1 \<le> bd" using d bitlen_eq_zero_iff[of d] bitlen_nonneg[of d] unfolding bd_def by linarith
  have nlo: "(2::rat) powi (bn - 1) \<le> of_int n"
  proof -
    have "(2::int) ^ nat (bn - 1) \<le> n" using bitlen_bounds[OF n] by (simp add: bn_def)
    then have "of_int ((2::int) ^ nat (bn - 1)) \<le> (of_int n :: rat)" by (simp only: of_int_le_iff)
    then show ?thesis using bn1 by (simp add: power_int_nonneg_exp)
  qed
  have nhi: "of_int n < (2::rat) powi bn"
  proof -
    have "n < (2::int) ^ nat bn" using bitlen_bounds[OF n] by (simp add: bn_def)
    then have "(of_int n :: rat) < of_int ((2::int) ^ nat bn)" by (simp only: of_int_less_iff)
    then show ?thesis using bn1 by (simp add: power_int_nonneg_exp)
  qed
  have dlo: "(2::rat) powi (bd - 1) \<le> of_int d"
  proof -
    have "(2::int) ^ nat (bd - 1) \<le> d" using bitlen_bounds[OF d] by (simp add: bd_def)
    then have "of_int ((2::int) ^ nat (bd - 1)) \<le> (of_int d :: rat)" by (simp only: of_int_le_iff)
    then show ?thesis using bd1 by (simp add: power_int_nonneg_exp)
  qed
  have dhi: "of_int d < (2::rat) powi bd"
  proof -
    have "d < (2::int) ^ nat bd" using bitlen_bounds[OF d] by (simp add: bd_def)
    then have "(of_int d :: rat) < of_int ((2::int) ^ nat bd)" by (simp only: of_int_less_iff)
    then show ?thesis using bd1 by (simp add: power_int_nonneg_exp)
  qed
  have dpos: "(0::rat) < of_int d" using d by simp
  have lo: "2 powi (bn - bd - 1) \<le> q"
  proof -
    have "(2::rat) powi (bn - bd - 1) * of_int d \<le> 2 powi (bn - bd - 1) * 2 powi bd"
      using dhi two_powi_pos[of "bn - bd - 1"] by (simp add: mult_left_mono)
    also have "\<dots> = 2 powi (bn - 1)"
      by (simp add: power_int_add[symmetric])
    also have "\<dots> \<le> of_int n" by (rule nlo)
    finally show ?thesis using dpos by (simp add: q pos_le_divide_eq)
  qed
  have hi: "q < 2 powi (bn - bd + 1)"
  proof -
    have "of_int n < (2::rat) powi bn" by (rule nhi)
    also have "\<dots> = 2 powi (bn - bd + 1) * 2 powi (bd - 1)"
      by (simp add: power_int_add[symmetric])
    also have "\<dots> \<le> 2 powi (bn - bd + 1) * of_int d"
      using dlo two_powi_pos[of "bn - bd + 1"] by (simp add: mult_left_mono)
    finally show ?thesis using dpos by (simp add: q pos_divide_less_eq)
  qed
  have il: "ilog2 q = (if 2 powi (bn - bd) \<le> q then bn - bd else bn - bd - 1)"
    by (simp add: ilog2_def nd bn_def bd_def Let_def)
  show "2 powi ilog2 q \<le> q" using lo by (simp add: il)
  show "q < 2 powi (ilog2 q + 1)" using hi by (auto simp add: il not_le)
qed

lemma round_half_even_of_int: "round_half_even (of_int k) = k"
  by (simp add: round_half_even_def)

lemma round_half_even_ge_floor: "\<lfloor>x\<rfloor> \<le> round_half_even x"
  by (simp add: round_half_even_def Let_def)

lemma round_half_even_ge1: "1 \<le> x \<Longrightarrow> 1 \<le> round_half_even x"
proof -
  assume "1 \<le> x"
  then have "1 \<le> \<lfloor>x\<rfloor>" by simp
  then show ?thesis using round_half_even_ge_floor[of x] by linarith
qed

lemma binary64_exponent_le:
  assumes "0 < a" and "2 powi (- 1074) \<le> a"
  shows "2 powi (max (ilog2 a - 52) (- 1074)) \<le> a"
proof (cases "ilog2 a - 52 \<le> - 1074")
  case True
  then show ?thesis using assms(2) by (simp add: max_def)
next
  case False
  then have "max (ilog2 a - 52) (- 1074) = ilog2 a - 52" by (simp add: max_def)
  moreover have "(2::rat) powi (ilog2 a - 52) \<le> 2 powi ilog2 a" by (rule two_powi_mono) simp
  ultimately show ?thesis using ilog2_bounds(1)[OF assms(1)] by simp
qed

lemma binary64_negative:
  assumes "q < 0" and "2 powi (- 1074) \<le> \<bar>q\<bar>"
  shows "js_less (binary64 q) (Fin 0)"
proof -
  define e where "e = max (ilog2 \<bar>q\<bar> - 52) (- 1074)"
  define m where "m = round_half_even (\<bar>q\<bar> / 2 powi e)"
  have apos: "0 < \<bar>q\<bar>" using assms(1) by simp
  have "2 powi e \<le> \<bar>q\<bar>" unfolding e_def by (rule binary64_exponent_le[OF apos assms(2)])
  then have "1 \<le> \<bar>q\<bar> / 2 powi e" using two_powi_pos[of e] by (simp add: pos_le_divide_eq)
  then have m1: "1 \<le> m" unfolding m_def by (rule round_half_even_ge1)
  then have "(0::rat) < of_int m * 2 powi e" using two_powi_pos[of e] by simp
  moreover have "sgn q = - 1" using assms(1) by simp
  moreover have "q \<noteq> 0" "\<not> 0 < q" using assms(1) by simp_all
  then have "binary64 q = (if 971 < e \<or> (e = 971 \<and> 2 ^ 53 \<le> m) then NInf
                       else Fin (sgn q * (of_int m * 2 powi e)))"
    unfolding binary64_def Let_def e_def m_def by (simp only: if_False)
  ultimately show ?thesis by simp
qed

lemma binary64_grid:
  assumes "binary64 q = Fin x"
  shows "\<exists>k::int. x = of_int k * 2 powi (- 1074)"
proof (cases "q = 0")
  case True
  then have "x = 0" using assms by (simp add: binary64_def)
  then show ?thesis by (intro exI[of _ 0]) simp
next
  case False
  define e where "e = max (ilog2 \<bar>q\<bar> - 52) (- 1074)"
  define m where "m = round_half_even (\<bar>q\<bar> / 2 powi e)"
  have "binary64 q = (if 971 < e \<or> (e = 971 \<and> 2 ^ 53 \<le> m) then (if 0 < q then PInf else NInf)
                       else Fin (sgn q * (of_int m * 2 powi e)))"
    using False unfolding binary64_def Let_def e_def m_def by (simp only: if_False)
  then have x: "x = sgn q * (of_int m * 2 powi e)"
    using assms by (simp split: if_splits)
  have e: "0 \<le> e + 1074" by (simp add: e_def)
  have "(2::rat) powi (e + 1074 + (- 1074)) = 2 powi (e + 1074) * 2 powi (- 1074)"
    by (rule power_int_add) simp
  moreover have "e + 1074 + (- 1074) = e" by simp
  ultimately have "(2::rat) powi e = 2 powi (e + 1074) * 2 powi (- 1074)" by (simp only:)
  also have "(2::rat) powi (e + 1074) = of_int (2 ^ nat (e + 1074))"
    using e by (simp add: power_int_nonneg_exp)
  finally have pe: "(2::rat) powi e = of_int (2 ^ nat (e + 1074)) * 2 powi (- 1074)" .
  have "sgn q = of_int (sgn (if 0 < q then 1 else - 1))" using False by (simp add: sgn_if)
  then obtain s :: int where s: "sgn q = of_int s" by blast
  have "x = of_int (s * m * 2 ^ nat (e + 1074)) * 2 powi (- 1074)"
    unfolding x s pe by simp
  then show ?thesis by blast
qed

lemma binary64_of_int:
  assumes "\<bar>k\<bar> \<le> 2 ^ 53"
  shows "binary64 (of_int k) = Fin (of_int k)"
proof (cases "k = 0")
  case True
  then show ?thesis by (simp add: binary64_def)
next
  case False
  define a :: rat where "a = \<bar>of_int k\<bar>"
  have a: "a = of_int \<bar>k\<bar>" by (simp add: a_def)
  have a1: "1 \<le> a" using False unfolding a by simp
  have apos: "0 < a" using a1 by simp
  have ahi: "a \<le> 2 ^ 53"
  proof -
    have "(of_int \<bar>k\<bar> :: rat) \<le> of_int (2 ^ 53)" using assms by (simp only: of_int_le_iff)
    then show ?thesis by (simp add: a)
  qed
  define il where "il = ilog2 a"
  have lo: "2 powi il \<le> a" and hi: "a < 2 powi (il + 1)"
    unfolding il_def using ilog2_bounds[OF apos] by simp_all
  have il0: "0 \<le> il"
  proof (rule ccontr)
    assume "\<not> 0 \<le> il"
    then have "il + 1 \<le> 0" by simp
    then have "(2::rat) powi (il + 1) \<le> 2 powi 0" by (rule two_powi_mono)
    then show False using hi a1 by simp
  qed
  have il53: "il \<le> 53"
  proof (rule ccontr)
    assume "\<not> il \<le> 53"
    then have "54 \<le> il" by simp
    then have "(2::rat) powi 54 \<le> 2 powi il" by (rule two_powi_mono)
    then show False using lo ahi by simp
  qed
  define e where "e = max (il - 52) (- 1074)"
  have e: "e = il - 52" using il0 by (simp add: e_def max_def)
  define m where "m = round_half_even (a / 2 powi e)"
  have v: "of_int m * 2 powi e = a"
  proof (cases "e \<le> 0")
    case True
    have "a / 2 powi e = a * 2 powi (- e)" by (simp add: power_int_minus divide_inverse)
    also have "\<dots> = of_int (\<bar>k\<bar> * 2 ^ nat (- e))" using True by (simp add: a power_int_nonneg_exp)
    finally have "m = \<bar>k\<bar> * 2 ^ nat (- e)" unfolding m_def by (simp only: round_half_even_of_int)
    then have "of_int m * (2::rat) powi e = of_int \<bar>k\<bar> * (2 powi (- e) * 2 powi e)"
      using True by (simp add: power_int_nonneg_exp)
    also have "(2::rat) powi (- e) * 2 powi e = 1" by (simp add: power_int_add[symmetric])
    finally show ?thesis by (simp add: a)
  next
    case False
    then have e1: "e = 1" using e il53 by simp
    then have "il = 53" using e by simp
    then have "a = 2 ^ 53" using lo ahi by simp
    then have "a / 2 powi e = of_int (2 ^ 52)" by (simp add: e1)
    then have "m = 2 ^ 52" unfolding m_def by (simp only: round_half_even_of_int)
    then show ?thesis using \<open>a = 2 ^ 53\<close> by (simp add: e1)
  qed
  have no_overflow: "\<not> (971 < e \<or> (e = 971 \<and> 2 ^ 53 \<le> m))" using e il53 by simp
  have "(of_int k :: rat) \<noteq> 0" using False by simp
  then have "binary64 (of_int k) = (if 971 < e \<or> (e = 971 \<and> 2 ^ 53 \<le> m)
        then (if 0 < (of_int k :: rat) then PInf else NInf)
        else Fin (sgn (of_int k) * (of_int m * 2 powi e)))"
    unfolding binary64_def Let_def e_def m_def il_def a_def by (simp only: if_False)
  then have "binary64 (of_int k) = Fin (sgn (of_int k) * (of_int m * 2 powi e))"
    using no_overflow by (simp only: if_False)
  also have "sgn (of_int k :: rat) * (of_int m * 2 powi e) = of_int k"
    unfolding v a_def by (rule sgn_mult_abs)
  finally show ?thesis .
qed

lemma binary64_neg_numeral:
  "(numeral n :: int) \<le> 2 ^ 53 \<Longrightarrow> binary64 (- numeral n) = Fin (- numeral n)"
  using binary64_of_int[of "- numeral n"] by simp

lemma str_unsigned_decimal_grid:
  "str_unsigned_decimal s = Fin x \<Longrightarrow> \<exists>k::int. x = of_int k * 2 powi (- 1074)"
  by (auto simp add: str_unsigned_decimal_def Let_def split: if_splits dest: binary64_grid)

lemma parseFloat_grid:
  assumes "parseFloat s = Fin x"
  shows "\<exists>k::int. x = of_int k * 2 powi (- 1074)"
proof -
  have neg: "\<exists>k::int. x = of_int k * 2 powi (- 1074)" if "js_neg (str_unsigned_decimal r) = Fin x" for r
  proof -
    from that obtain y where y: "str_unsigned_decimal r = Fin y" "x = - y"
      by (cases "str_unsigned_decimal r") auto
    from str_unsigned_decimal_grid[OF y(1)] obtain k :: int where "y = of_int k * 2 powi (- 1074)" ..
    then have "x = of_int (- k) * 2 powi (- 1074)" using y(2) by simp
    then show ?thesis ..
  qed
  show ?thesis
    using assms neg
    by (auto simp add: parseFloat_def split: list.splits if_splits dest: str_unsigned_decimal_grid)
qed

lemma grid_difference_negative:
  assumes "c = of_int kc * 2 powi (- 1074)" and "a = of_int ka * 2 powi (- 1074)" and "c < a"
  shows "js_less (binary64 (c - a)) (Fin 0)"
proof -
  define u :: rat where "u = 2 powi (- 1074)"
  have upos: "0 < u" unfolding u_def by (rule two_powi_pos)
  have d: "c - a = of_int (kc - ka) * u" using assms(1,2) by (simp add: u_def algebra_simps)
  have "kc < ka"
  proof (rule ccontr)
    assume "\<not> kc < ka"
    then have "(of_int ka :: rat) \<le> of_int kc" by simp
    then have "of_int ka * u \<le> of_int kc * u" using upos by (simp add: mult_right_mono)
    then show False using assms by (simp add: u_def)
  qed
  then have "1 \<le> ka - kc" by simp
  then have "(1::rat) \<le> of_int (ka - kc)" by (simp only: of_int_1_le_iff)
  then have "1 * u \<le> of_int (ka - kc) * u" using upos by (simp only: mult_le_cancel_right_pos)
  moreover have "\<bar>c - a\<bar> = of_int (ka - kc) * u" using assms(3) d by (simp add: algebra_simps)
  ultimately have "2 powi (- 1074) \<le> \<bar>c - a\<bar>" by (simp add: u_def)
  moreover have "c - a < 0" using assms(3) by simp
  ultimately show ?thesis by (rule binary64_negative[rotated])
qed

lemma debit_exceeding_balance:
  assumes "representable cur" and "amt = parseFloat s" and "js_less cur amt"
  shows "js_less (js_sub cur amt) (Fin 0)"
proof (cases amt)
  case (Fin a)
  then obtain ka :: int where ka: "a = of_int ka * 2 powi (- 1074)"
    using parseFloat_grid[of s a] assms(2) by auto
  show ?thesis
  proof (cases cur)
    case (Fin c)
    then have "binary64 c = Fin c" using assms(1) by (simp add: representable_def is_double_def)
    then obtain kc :: int where kc: "c = of_int kc * 2 powi (- 1074)"
      using binary64_grid by blast
    have "c < a" using assms(3) Fin \<open>amt = Fin a\<close> by simp
    then have "js_less (binary64 (c - a)) (Fin 0)" by (rule grid_difference_negative[OF kc ka])
    then show ?thesis using Fin \<open>amt = Fin a\<close> by (simp add: js_sub_def)
  qed (use assms(3) \<open>amt = Fin a\<close> in \<open>simp_all add: js_sub_def\<close>)
next
  case PInf
  then show ?thesis using assms(3) by (cases cur) (simp_all add: js_sub_def)
next
  case NInf
  then show ?thesis using assms(3) by (cases cur) simp_all
next
  case NaN
  then show ?thesis using assms(3) by (cases cur) simp_all
qed

lemma binary64_nonneg:
  assumes "0 \<le> q"
  shows "binary64 q = PInf \<or> (\<exists>x\<ge>0. binary64 q = Fin x)"
proof (cases "q = 0")
  case True
  then show ?thesis by (simp add: binary64_def)
next
  case False
  then have pos: "0 < q" using assms by simp
  define e where "e = max (ilog2 \<bar>q\<bar> - 52) (- 1074)"
  define m where "m = round_half_even (\<bar>q\<bar> / 2 powi e)"
  have "0 \<le> \<bar>q\<bar> / 2 powi e" using two_powi_pos[of e] by simp
  then have "0 \<le> \<lfloor>\<bar>q\<bar> / 2 powi e\<rfloor>" by simp
  then have m0: "0 \<le> m" unfolding m_def using round_half_even_ge_floor[of "\<bar>q\<bar> / 2 powi e"] by linarith
  have v: "(0::rat) \<le> sgn q * (of_int m * 2 powi e)"
    using m0 pos two_powi_pos[of e] by simp
  have "binary64 q = (if 971 < e \<or> (e = 971 \<and> 2 ^ 53 \<le> m) then (if 0 < q then PInf else NInf)
                       else Fin (sgn q * (of_int m * 2 powi e)))"
    using False unfolding binary64_def Let_def e_def m_def by (simp only: if_False)
  then show ?thesis using pos v by (cases "971 < e \<or> (e = 971 \<and> 2 ^ 53 \<le> m)") auto
qed

lemma digits_value_nonneg:
  assumes "\<forall>c\<in>set ds. is_digit c" and "(0::int) \<le> acc"
  shows "0 \<le> foldl (\<lambda>acc c. 10 * acc + (of_char c - 48)) acc ds"
  using assms
proof (induction ds arbitrary: acc)
  case Nil
  then show ?case by simp
next
  case (Cons c ds)
  have "is_digit c" using Cons.prems(1) by simp
  then have "(48::int) \<le> of_char c" by (auto simp add: is_digit_def)
  then have "0 \<le> 10 * acc + (of_char c - 48)" using Cons.prems(2) by simp
  then show ?case using Cons.IH[of "10 * acc + (of_char c - 48)"] Cons.prems(1) by simp
qed

lemma str_unsigned_decimal_nonneg:
  "str_unsigned_decimal s = NaN \<or> str_unsigned_decimal s = PInf
   \<or> (\<exists>x\<ge>0. str_unsigned_decimal s = Fin x)"
proof -
  define ip where "ip = takeWhile is_digit s"
  define r1 where "r1 = dropWhile is_digit s"
  define fp where "fp = (case r1 of [] \<Rightarrow> [] | c # t \<Rightarrow> if c = CHR ''.'' then takeWhile is_digit t else [])"
  define r2 where "r2 = (case r1 of [] \<Rightarrow> [] | c # t \<Rightarrow> if c = CHR ''.'' then dropWhile is_digit t else r1)"
  have "\<forall>c\<in>set ip. is_digit c" unfolding ip_def by (auto dest: set_takeWhileD)
  moreover have "\<forall>c\<in>set fp. is_digit c"
    unfolding fp_def by (auto split: list.splits dest: set_takeWhileD)
  ultimately have "\<forall>c\<in>set (ip @ fp). is_digit c" by auto
  then have "0 \<le> digits_value (ip @ fp)"
    unfolding digits_value_def by (rule digits_value_nonneg) simp
  then have "(0::rat) \<le> of_int (digits_value (ip @ fp)) * 10 powi (exponent_part r2 - int (length fp))"
    by (simp add: zero_le_power_int)
  from binary64_nonneg[OF this] show ?thesis
    unfolding str_unsigned_decimal_def Let_def ip_def[symmetric] r1_def[symmetric]
      fp_def[symmetric] r2_def[symmetric]
    by auto
qed

lemma parseFloat_minus_rejected:
  assumes "dropWhile is_whitespace s = CHR ''-'' # r"
  shows "isNaN (parseFloat s) \<or> js_le (parseFloat s) (Fin 0)"
proof -
  have p: "parseFloat s = js_neg (str_unsigned_decimal r)" using assms by (simp add: parseFloat_def)
  show ?thesis
    using str_unsigned_decimal_nonneg[of r]
    by (auto simp add: p isNaN_def js_le_def)
qed

lemma parseFloat_not_numeric:
  assumes "dropWhile is_whitespace s = c # r" and "c \<notin> set ''0123456789+-.I''"
  shows "parseFloat s = NaN"
proof -
  have nd: "\<not> is_digit c" using assms(2) by (auto simp add: is_digit_def)
  have "str_unsigned_decimal (c # r) = NaN"
    using assms(2) nd by (auto simp add: str_unsigned_decimal_def Let_def)
  then show ?thesis using assms by (auto simp add: parseFloat_def)
qed



lemma js_add_int_exact:
  assumes "\<bar>a + b\<bar> \<le> 2 ^ 53"
  shows "js_add (Fin (of_int a)) (Fin (of_int b)) = Fin (of_int (a + b))"
  using binary64_of_int[OF assms] by simp

lemma js_add_one_exact:
  assumes "n < 2 ^ 53"
  shows "js_add (Fin (of_nat n)) (Fin 1) = Fin (of_nat (n + 1))"
proof -
  have "\<bar>int n + 1\<bar> \<le> 2 ^ 53" using assms by (simp add: nat_less_iff flip: of_nat_less_iff) 
  from js_add_int_exact[OF this] show ?thesis by simp
qed




lemma ilog2_unique:
  assumes "0 < q" and "2 powi k \<le> q" and "q < 2 powi (k + 1)"
  shows "ilog2 q = k"
proof (rule ccontr)
  assume ne: "ilog2 q \<noteq> k"
  note b = ilog2_bounds[OF assms(1)]
  show False
  proof (cases "ilog2 q < k")
    case True
    then have "(2::rat) powi (ilog2 q + 1) \<le> 2 powi k" by (intro two_powi_mono) simp
    then show False using b(2) assms(2) by linarith
  next
    case False
    then have "k + 1 \<le> ilog2 q" using ne by simp
    then have "(2::rat) powi (k + 1) \<le> 2 powi ilog2 q" by (rule two_powi_mono)
    then show False using b(1) assms(3) by linarith
  qed
qed

lemma round_half_even_le_floor1: "round_half_even x \<le> \<lfloor>x\<rfloor> + 1"
  by (simp add: round_half_even_def Let_def)

lemma binary64_unfold:
  assumes "q \<noteq> 0"
  shows "binary64 q =
     (if 971 < max (ilog2 \<bar>q\<bar> - 52) (- 1074)
         \<or> (max (ilog2 \<bar>q\<bar> - 52) (- 1074) = 971
             \<and> 2 ^ 53 \<le> round_half_even (\<bar>q\<bar> / 2 powi max (ilog2 \<bar>q\<bar> - 52) (- 1074)))
      then (if 0 < q then PInf else NInf)
      else Fin (sgn q * (of_int (round_half_even (\<bar>q\<bar> / 2 powi max (ilog2 \<bar>q\<bar> - 52) (- 1074)))
                          * 2 powi max (ilog2 \<bar>q\<bar> - 52) (- 1074))))"
  using assms unfolding binary64_def Let_def by (simp only: if_False)

text \<open>A positive value \<open>m * 2^e\<close> with \<open>e\<close> the exponent that rounding gives it is left as it is.\<close>

lemma binary64_fixed:
  assumes "0 < m" and "s = 1 \<or> s = - 1"
    and "max (ilog2 (of_int m * 2 powi e) - 52) (- 1074) = e"
    and "\<not> (971 < e \<or> (e = 971 \<and> 2 ^ 53 \<le> m))"
  shows "binary64 (s * (of_int m * 2 powi e)) = Fin (s * (of_int m * 2 powi e))"
proof -
  define a :: rat where "a = of_int m * 2 powi e"
  have apos: "0 < a" unfolding a_def using assms(1) two_powi_pos[of e] by simp
  have q0: "s * a \<noteq> 0" using apos assms(2) by auto
  have ab: "\<bar>s * a\<bar> = a" using apos assms(2) by auto
  have sg: "sgn (s * a) = s" using apos assms(2) by (auto simp add: sgn_mult)
  have e: "max (ilog2 a - 52) (- 1074) = e" using assms(3) by (simp add: a_def)
  have "a / 2 powi e = of_int m" using two_powi_pos[of e] by (simp add: a_def)
  then have m: "round_half_even (a / 2 powi e) = m" by (simp only: round_half_even_of_int)
  have "binary64 (s * a) = Fin (s * (of_int m * 2 powi e))"
    using assms(4) apos assms(2)
    by (simp only: binary64_unfold[OF q0] ab e m sg if_False)
  then show ?thesis by (simp only: a_def)
qed

lemma binary64_idempotent:
  assumes "binary64 q = Fin x"
  shows "binary64 x = Fin x"
proof (cases "q = 0")
  case True
  then have "x = 0" using assms by (simp add: binary64_def)
  then show ?thesis by (simp add: binary64_def)
next
  case False
  define a where "a = \<bar>q\<bar>"
  define il where "il = ilog2 a"
  define e where "e = max (il - 52) (- 1074)"
  define m where "m = round_half_even (a / 2 powi e)"
  define s where "s = sgn q"
  have apos: "0 < a" using False by (simp add: a_def)
  have s: "s = 1 \<or> s = - 1" using False by (auto simp add: s_def sgn_if)
  have pe: "(0::rat) < 2 powi e" by (rule two_powi_pos)
  have unf: "binary64 q = (if 971 < e \<or> (e = 971 \<and> 2 ^ 53 \<le> m)
        then (if 0 < q then PInf else NInf) else Fin (s * (of_int m * 2 powi e)))"
    unfolding e_def m_def il_def a_def s_def by (rule binary64_unfold[OF False])
  then have no: "\<not> (971 < e \<or> (e = 971 \<and> 2 ^ 53 \<le> m))" and x: "x = s * (of_int m * 2 powi e)"
    using assms by (auto split: if_splits)
  have lo: "2 powi il \<le> a" and hi: "a < 2 powi (il + 1)"
    unfolding il_def using ilog2_bounds[OF apos] by simp_all
  have e_ge: "il - 52 \<le> e" and e_min: "- 1074 \<le> e" by (simp_all add: e_def)
  have "0 \<le> a / 2 powi e" using apos pe by simp
  then have m0: "0 \<le> m"
    unfolding m_def using round_half_even_ge_floor[of "a / 2 powi e"] by (simp add: order_trans[OF _ round_half_even_ge_floor])
  have mhi: "m \<le> 2 ^ 53"
  proof -
    have "(2::rat) powi (il + 1) \<le> 2 powi (e + 53)" using e_ge by (intro two_powi_mono) simp
    also have "\<dots> = 2 powi e * 2 ^ 53" by (simp add: power_int_add)
    finally have "a < 2 powi e * 2 ^ 53" using hi by simp
    then have "a / 2 powi e < 2 ^ 53" using pe by (simp add: pos_divide_less_eq mult.commute)
    then have "\<lfloor>a / 2 powi e\<rfloor> < 2 ^ 53" by (simp add: floor_less_iff)
    then show ?thesis unfolding m_def using round_half_even_le_floor1[of "a / 2 powi e"] by linarith
  qed
  show ?thesis
  proof (cases "m = 0")
    case True
    then show ?thesis by (simp add: x binary64_def)
  next
    case False
    then have mpos: "0 < m" using m0 by simp
    have m1: "(1::rat) \<le> of_int m" using mpos by simp
    show ?thesis
    proof (cases "m = 2 ^ 53")
      case True
      have e970: "e \<le> 970" using no True by auto
      have v: "of_int m * (2::rat) powi e = of_int (2 ^ 52) * 2 powi (e + 1)"
        by (simp add: True power_int_add)
      have p: "(of_int (2 ^ 52) :: rat) * 2 powi (e + 1) = 2 powi (e + 53)"
        by (simp add: power_int_add)
      have "ilog2 (of_int (2 ^ 52) * 2 powi (e + 1)) = e + 53"
        unfolding p
      proof (rule ilog2_unique)
        show "(0::rat) < 2 powi (e + 53)" by (rule two_powi_pos)
        show "(2::rat) powi (e + 53) \<le> 2 powi (e + 53)" by simp
        show "(2::rat) powi (e + 53) < 2 powi (e + 53 + 1)" by (intro power_int_strict_increasing) simp_all
      qed
      then have ex: "max (ilog2 (of_int (2 ^ 52) * 2 powi (e + 1)) - 52) (- 1074) = e + 1"
        using e_min by simp
      have nov: "\<not> (971 < e + 1 \<or> (e + 1 = 971 \<and> (2::int) ^ 53 \<le> 2 ^ 52))" using e970 by simp
      have "binary64 (s * (of_int (2 ^ 52) * 2 powi (e + 1))) = Fin (s * (of_int (2 ^ 52) * 2 powi (e + 1)))"
        by (rule binary64_fixed[OF _ s ex nov]) simp
      then show ?thesis by (simp only: x v)
    next
      case False
      then have mlt: "m < 2 ^ 53" using mhi by simp
      have ex: "max (ilog2 (of_int m * 2 powi e) - 52) (- 1074) = e"
      proof (cases "2 ^ 52 \<le> m")
        case True
        have "(2::rat) powi (e + 52) = 2 powi e * of_int (2 ^ 52)" by (simp add: power_int_add)
        also have "\<dots> \<le> 2 powi e * of_int m"
        proof (rule mult_left_mono)
          show "(of_int (2 ^ 52) :: rat) \<le> of_int m" using True by (simp only: of_int_le_iff)
          show "(0::rat) \<le> 2 powi e" using pe by simp
        qed
        finally have l: "(2::rat) powi (e + 52) \<le> of_int m * 2 powi e" by (simp add: mult.commute)
        have "of_int m * (2::rat) powi e < of_int (2 ^ 53) * 2 powi e"
        proof (rule mult_strict_right_mono)
          show "(of_int m :: rat) < of_int (2 ^ 53)" using mlt by (simp only: of_int_less_iff)
          show "(0::rat) < 2 powi e" by (rule pe)
        qed
        also have "\<dots> = 2 powi (e + 52 + 1)" by (simp add: power_int_add)
        finally have h: "of_int m * (2::rat) powi e < 2 powi (e + 52 + 1)" .
        have "(0::rat) < of_int m * 2 powi e" using mpos pe by simp
        from ilog2_unique[OF this l h] show ?thesis using e_min by simp
      next
        case False
        then have msmall: "m < 2 ^ 52" by simp
        have esub: "e = - 1074"
        proof (rule ccontr)
          assume "e \<noteq> - 1074"
          then have "il = e + 52" by (simp add: e_def max_def split: if_splits)
          then have "(2::rat) powi il = 2 powi e * 2 ^ 52" by (simp add: power_int_add)
          then have "2 powi e * 2 ^ 52 \<le> a" using lo by simp
          then have "2 ^ 52 \<le> a / 2 powi e" using pe by (simp add: pos_le_divide_eq mult.commute)
          then have "2 ^ 52 \<le> \<lfloor>a / 2 powi e\<rfloor>" by (simp add: le_floor_iff)
          then have "2 ^ 52 \<le> m"
            unfolding m_def using round_half_even_ge_floor[of "a / 2 powi e"] by linarith
          then show False using msmall by simp
        qed
        have "of_int m * (2::rat) powi e < of_int (2 ^ 52) * 2 powi e"
        proof (rule mult_strict_right_mono)
          show "(of_int m :: rat) < of_int (2 ^ 52)" using msmall by (simp only: of_int_less_iff)
          show "(0::rat) < 2 powi e" by (rule pe)
        qed
        also have "\<dots> = 2 powi (e + 52)" by (simp add: power_int_add)
        finally have up: "of_int m * (2::rat) powi e < 2 powi (e + 52)" .
        have vpos: "(0::rat) < of_int m * 2 powi e" using mpos pe by simp
        have "ilog2 (of_int m * 2 powi e) < e + 52"
        proof (rule ccontr)
          assume "\<not> ilog2 (of_int m * 2 powi e) < e + 52"
          then have "(2::rat) powi (e + 52) \<le> 2 powi ilog2 (of_int m * 2 powi e)"
            by (intro two_powi_mono) simp
          then show False using ilog2_bounds(1)[OF vpos] up by linarith
        qed
        then show ?thesis using esub by simp
      qed
      have "binary64 (s * (of_int m * 2 powi e)) = Fin (s * (of_int m * 2 powi e))"
        by (rule binary64_fixed[OF mpos s ex no])
      then show ?thesis by (simp only: x)
    qed
  qed
qed

lemma binary64_minus: "binary64 (- q) = js_neg (binary64 q)"
proof (cases "q = 0")
  case True
  then show ?thesis by (simp add: binary64_def)
next
  case False
  then have nz: "- q \<noteq> 0" by simp
  have sg: "sgn (- q) = - sgn q" by (simp add: sgn_minus)
  show ?thesis
    unfolding binary64_unfold[OF nz] binary64_unfold[OF False] abs_minus_cancel sg
    using False by (auto simp add: not_less)
qed

lemma binary64_representable: "representable (binary64 q)"
  by (cases "binary64 q") (simp_all add: representable_def is_double_def binary64_idempotent)

lemma js_neg_representable: "representable x \<Longrightarrow> representable (js_neg x)"
  by (cases x) (simp_all add: representable_def is_double_def binary64_minus)

lemma js_add_representable: "representable (js_add x y)"
  by (cases x; cases y) (simp_all add: binary64_representable, simp_all add: representable_def)

lemma js_sub_representable: "representable (js_sub x y)"
  by (simp add: js_sub_def js_add_representable)

lemma representable_special: "representable NaN" "representable PInf" "representable NInf"
  by (simp_all add: representable_def)

lemma str_unsigned_decimal_representable: "representable (str_unsigned_decimal s)"
  by (simp add: str_unsigned_decimal_def Let_def binary64_representable representable_special)

lemma parseFloat_representable: "representable (parseFloat s)"
  by (simp add: parseFloat_def str_unsigned_decimal_representable js_neg_representable
        representable_special split: list.splits)

section \<open>Strings and keys\<close>

lemma trim_Nil: "trim [] = []"
  by (simp add: trim_def)

lemma createUserBalanceKey_inj: "(createUserBalanceKey a = createUserBalanceKey b) = (a = b)"
  by (simp add: createUserBalanceKey_def)

lemma createIdempotencyKey_inj: "(createIdempotencyKey a = createIdempotencyKey b) = (a = b)"
  by (simp add: createIdempotencyKey_def)

lemma key_kinds_disjoint:
  "createUserBalanceKey u \<noteq> createIdempotencyKey k"
  "createTransactionKey u ts k \<noteq> createIdempotencyKey k'"
  "createTransactionKey u ts k \<noteq> createUserBalanceKey u'"
  by (simp_all add: createUserBalanceKey_def createIdempotencyKey_def createTransactionKey_def)

lemma validate_accepts_user:
  assumes "trim (TransactRequest.userId request) \<noteq> []"
  shows "validate request \<noteq> Some (BalanceError ''Invalid userId: must be a non-empty string'' ''INVALID_USER_ID'')"
  using assms by (auto simp add: validate_def trim_Nil Let_def)

text \<open>The balances that a call leaves: those it found, with at most the caller's own key rewritten.\<close>

lemma transact_balances_frame:
  assumes "alone e" and "k \<noteq> createUserBalanceKey (TransactRequest.userId request)"
  shows "balances (snd (transact e request tbl)) k = balances tbl k"
  using assms
  by (auto simp add: transact_def transact_try_def transact_catch_def commit_def
        TransactWriteCommand_def PutIdempotency_def GetCommand_def alone_def Let_def recordFailure_def
        split: option.splits sum.splits prod.splits if_splits)

section \<open>The paths of a call\<close>

lemma transact_invalid:
  "validate request = Some err \<Longrightarrow> transact e request tbl = (Inl err, tbl)"
  by (simp add: transact_def)

lemma commit_error_recorded:
  "commit e request amt br ver nb tbl = (Inl err, t) \<Longrightarrow> records_failure err \<and> t = tbl"
  by (auto simp add: commit_def TransactWriteCommand_def Let_def records_failure_def
        split: option.splits if_splits sum.splits)

lemma transact_try_error_recorded:
  "transact_try e request amt tbl = (Inl err, t) \<Longrightarrow> records_failure err"
  by (auto simp add: transact_try_def GetCommand_def Let_def records_failure_def
        split: option.splits if_splits sum.splits dest: commit_error_recorded)

lemma transact_valid:
  assumes "validate request = None"
  shows "transact e request tbl =
     (case transact_try e request (parseFloat (TransactRequest.amount request)) tbl of
        (Inr response, t) \<Rightarrow> (Inr response, t)
      | (Inl error, t) \<Rightarrow> (Inl (rethrown error), recordFailure e request t))"
  using assms
  by (auto simp add: transact_def transact_catch_def split: prod.splits sum.splits
        dest: transact_try_error_recorded)

lemma recordFailure_frame:
  "balances (recordFailure e request t) = balances (beforePut e t)"
  "transactions (recordFailure e request t) = transactions (beforePut e t)"
  "k \<noteq> createIdempotencyKey (TransactRequest.idempotentKey request) \<Longrightarrow>
     idempotency (recordFailure e request t) k = idempotency (beforePut e t) k"
  by (simp_all add: recordFailure_def PutIdempotency_def split: option.splits)

text \<open>The \<open>try\<close> block of a call whose token is new and whose two reads succeed.\<close>

lemma transact_try_fresh:
  assumes "getIdempotencyFault e = None" and "getBalanceFault e = None"
    and "idempotency tbl (createIdempotencyKey (TransactRequest.idempotentKey request)) = None"
  shows "transact_try e request amt tbl =
     (let tbl1 = beforeGetBalance e tbl;
          balanceResult = balances tbl1 (createUserBalanceKey (TransactRequest.userId request))
      in if TransactRequest.type request = ''credit''
         then commit e request amt balanceResult (currentVersionOf balanceResult)
                (js_add (currentBalanceOf balanceResult) amt) (beforeCommit e tbl1)
         else if js_less (js_sub (currentBalanceOf balanceResult) amt) (Fin 0)
         then (Inl (Balance (InsufficientFundsError (TransactRequest.userId request)
                               (currentBalanceOf balanceResult) amt)), tbl1)
         else commit e request amt balanceResult (currentVersionOf balanceResult)
                (js_sub (currentBalanceOf balanceResult) amt) (beforeCommit e tbl1))"
  using assms by (simp add: transact_try_def GetCommand_def Let_def)

lemma commit_rejected:
  assumes "commitFault e = None"
    and "balances tbl (createUserBalanceKey (TransactRequest.userId request)) = Some b'"
    and "BalanceItem.version b' \<noteq> ver"
  shows "commit e request amt br ver nb tbl =
     (Inl (Store (TransactionCanceledException (cancellationMessage e))), tbl)"
  using assms by (simp add: commit_def TransactWriteCommand_def condition_holds_def Let_def)

lemma commit_accepted:
  assumes "commit e request amt br ver nb tbl = (Inr resp, tbl')"
  shows "commitFault e = None"
    and "condition_holds tbl (createUserBalanceKey (TransactRequest.userId request)) ver"
    and "\<exists>b'. balances tbl' (createUserBalanceKey (TransactRequest.userId request)) = Some b'
           \<and> BalanceItem.version b' = ver + 1 \<and> BalanceItem.balance b' = nb"
    and "TransactionResponse.newBalance resp = nb" and "TransactionResponse.success resp"
  using assms
  by (auto simp add: commit_def TransactWriteCommand_def Let_def
        split: option.splits if_splits sum.splits)

lemma transact_try_errors:
  assumes "transact_try e request amt tbl = (Inl error, t)"
  shows "(\<exists>b m. error = Balance (InsufficientFundsError (TransactRequest.userId request) b m))
         \<or> error = Balance (RaceConditionError (TransactRequest.userId request))
         \<or> (\<exists>ex. error = Store ex)"
  using assms
  by (auto simp add: transact_try_def GetCommand_def commit_def TransactWriteCommand_def Let_def
        split: option.splits if_splits sum.splits)

lemma validate_amount_rejected:
  assumes "trim (TransactRequest.idempotentKey request) \<noteq> []"
    and "trim (TransactRequest.userId request) \<noteq> []"
    and "trim (TransactRequest.amount request) = []
         \<or> isNaN (parseFloat (TransactRequest.amount request))
         \<or> js_le (parseFloat (TransactRequest.amount request)) (Fin 0)"
  shows "validate request = Some (InvalidAmountError (TransactRequest.amount request))"
  using assms by (auto simp add: validate_def trim_Nil)

lemma validate_amount_accepted:
  assumes "\<not> (trim (TransactRequest.amount request) = []
         \<or> isNaN (parseFloat (TransactRequest.amount request))
         \<or> js_le (parseFloat (TransactRequest.amount request)) (Fin 0))"
  shows "validate request \<noteq> Some (InvalidAmountError x)"
  using assms by (auto simp add: validate_def trim_Nil split: if_splits)

lemma transact_try_step:
  assumes "alone e"
    and "idempotency tbl (createIdempotencyKey (TransactRequest.idempotentKey request)) = None"
    and "TransactRequest.type request = ''credit'' \<or> TransactRequest.type request = ''debit''"
    and "transact_try e request amt tbl = (r, t)"
  shows "(\<exists>err. r = Inl err \<and> t = tbl)
         \<or> (\<exists>resp. r = Inr resp \<and> TransactionResponse.success resp
                \<and> TransactionResponse.newBalance resp
                    = currentBalanceOf (balances t (createUserBalanceKey (TransactRequest.userId request)))
                \<and> currentBalanceOf (balances t (createUserBalanceKey (TransactRequest.userId request)))
                    = (if TransactRequest.type request = ''credit''
                       then js_add (currentBalanceOf (balances tbl
                              (createUserBalanceKey (TransactRequest.userId request)))) amt
                       else js_sub (currentBalanceOf (balances tbl
                              (createUserBalanceKey (TransactRequest.userId request)))) amt)
                \<and> (\<forall>k. k \<noteq> createIdempotencyKey (TransactRequest.idempotentKey request)
                       \<longrightarrow> idempotency t k = idempotency tbl k))"
  using assms
  by (auto simp add: transact_try_def GetCommand_def commit_def TransactWriteCommand_def
        alone_def Let_def currentBalanceOf_def
        split: option.splits if_splits sum.splits)

lemma transact_step:
  assumes "alone e"
    and "idempotency tbl (createIdempotencyKey (TransactRequest.idempotentKey request)) = None"
    and "transact e request tbl = (r, tbl')"
  shows "currentBalanceOf (balances tbl' (createUserBalanceKey (TransactRequest.userId request)))
           = applied (currentBalanceOf (balances tbl
               (createUserBalanceKey (TransactRequest.userId request)))) (request, r)"
    and "succeeded r \<longrightarrow> (\<exists>resp. r = Inr resp \<and> TransactionResponse.newBalance resp
           = currentBalanceOf (balances tbl' (createUserBalanceKey (TransactRequest.userId request))))"
    and "\<forall>k. k \<noteq> createIdempotencyKey (TransactRequest.idempotentKey request)
           \<longrightarrow> idempotency tbl' k = idempotency tbl k"
    and "\<forall>resp. r = Inr resp \<longrightarrow> TransactionResponse.success resp"
proof -
  let ?bk = "createUserBalanceKey (TransactRequest.userId request)"
  let ?P = "currentBalanceOf (balances tbl' ?bk) = applied (currentBalanceOf (balances tbl ?bk)) (request, r)
    \<and> (succeeded r \<longrightarrow> (\<exists>resp. r = Inr resp \<and> TransactionResponse.newBalance resp
           = currentBalanceOf (balances tbl' ?bk)))
    \<and> (\<forall>k. k \<noteq> createIdempotencyKey (TransactRequest.idempotentKey request)
           \<longrightarrow> idempotency tbl' k = idempotency tbl k)
    \<and> (\<forall>resp. r = Inr resp \<longrightarrow> TransactionResponse.success resp)"
  have ?P
  proof (cases "validate request")
    case (Some err)
    then have "r = Inl err" "tbl' = tbl" using assms(3) by (simp_all add: transact_invalid)
    then show ?thesis by (simp add: applied_def succeeded_def)
  next
    case None
    then have ty: "TransactRequest.type request = ''credit'' \<or> TransactRequest.type request = ''debit''"
      by (auto simp add: validate_def split: if_splits)
    obtain r0 t where tt: "transact_try e request (parseFloat (TransactRequest.amount request)) tbl = (r0, t)"
      by (cases "transact_try e request (parseFloat (TransactRequest.amount request)) tbl")
    from transact_try_step[OF assms(1,2) ty tt] show ?thesis
    proof
      assume "\<exists>err. r0 = Inl err \<and> t = tbl"
      then obtain err where e: "r0 = Inl err" "t = tbl" by blast
      then have "r = Inl (rethrown err)" "tbl' = recordFailure e request tbl"
        using assms(3) tt by (simp_all add: transact_valid[OF None])
      moreover have "beforePut e tbl = tbl" using assms(1) by (simp add: alone_def)
      ultimately show ?thesis
        by (simp add: applied_def succeeded_def recordFailure_frame)
    next
      assume "\<exists>resp. r0 = Inr resp \<and> TransactionResponse.success resp
                \<and> TransactionResponse.newBalance resp = currentBalanceOf (balances t ?bk)
                \<and> currentBalanceOf (balances t ?bk)
                    = (if TransactRequest.type request = ''credit''
                       then js_add (currentBalanceOf (balances tbl ?bk)) (parseFloat (TransactRequest.amount request))
                       else js_sub (currentBalanceOf (balances tbl ?bk)) (parseFloat (TransactRequest.amount request)))
                \<and> (\<forall>k. k \<noteq> createIdempotencyKey (TransactRequest.idempotentKey request)
                       \<longrightarrow> idempotency t k = idempotency tbl k)"
      then obtain resp where s: "r0 = Inr resp" "TransactionResponse.success resp"
        "TransactionResponse.newBalance resp = currentBalanceOf (balances t ?bk)"
        "currentBalanceOf (balances t ?bk)
                    = (if TransactRequest.type request = ''credit''
                       then js_add (currentBalanceOf (balances tbl ?bk)) (parseFloat (TransactRequest.amount request))
                       else js_sub (currentBalanceOf (balances tbl ?bk)) (parseFloat (TransactRequest.amount request)))"
        "\<forall>k. k \<noteq> createIdempotencyKey (TransactRequest.idempotentKey request)
                       \<longrightarrow> idempotency t k = idempotency tbl k"
        by blast
      have "r = Inr resp" "tbl' = t" using assms(3) tt s(1) by (simp_all add: transact_valid[OF None])
      then show ?thesis using s by (simp add: applied_def succeeded_def)
    qed
  qed
  then show "currentBalanceOf (balances tbl' ?bk) = applied (currentBalanceOf (balances tbl ?bk)) (request, r)"
    and "succeeded r \<longrightarrow> (\<exists>resp. r = Inr resp \<and> TransactionResponse.newBalance resp
           = currentBalanceOf (balances tbl' ?bk))"
    and "\<forall>k. k \<noteq> createIdempotencyKey (TransactRequest.idempotentKey request)
           \<longrightarrow> idempotency tbl' k = idempotency tbl k"
    and "\<forall>resp. r = Inr resp \<longrightarrow> TransactionResponse.success resp"
    by blast+
qed

lemma run_Cons:
  "run ((e, request) # rest) tbl =
     (fst (transact e request tbl) # fst (run rest (snd (transact e request tbl))),
      snd (run rest (snd (transact e request tbl))))"
  by (simp split: prod.splits)

lemma run_balance_fold:
  assumes "\<forall>(e, request) \<in> set calls. alone e \<and> TransactRequest.userId request = uid"
    and "distinct (map (\<lambda>(e, request). TransactRequest.idempotentKey request) calls)"
    and "\<forall>(e, request) \<in> set calls.
           idempotency tbl (createIdempotencyKey (TransactRequest.idempotentKey request)) = None"
  shows "currentBalanceOf (balances (snd (run calls tbl)) (createUserBalanceKey uid))
         = foldl applied (currentBalanceOf (balances tbl (createUserBalanceKey uid)))
             (zip (map snd calls) (fst (run calls tbl)))"
  using assms
proof (induction calls arbitrary: tbl)
  case Nil
  then show ?case by simp
next
  case (Cons c rest)
  obtain e request where c: "c = (e, request)" by (cases c)
  obtain r t1 where t: "transact e request tbl = (r, t1)" by (cases "transact e request tbl")
  have al: "alone e" and u: "TransactRequest.userId request = uid"
    using Cons.prems(1) c by auto
  have fresh: "idempotency tbl (createIdempotencyKey (TransactRequest.idempotentKey request)) = None"
    using Cons.prems(3) c by auto
  note st = transact_step[OF al fresh t]
  have p1: "\<forall>(e, request) \<in> set rest. alone e \<and> TransactRequest.userId request = uid"
    using Cons.prems(1) by auto
  have p2: "distinct (map (\<lambda>(e, request). TransactRequest.idempotentKey request) rest)"
    using Cons.prems(2) by simp
  have p3: "\<forall>(e', request') \<in> set rest.
           idempotency t1 (createIdempotencyKey (TransactRequest.idempotentKey request')) = None"
  proof (clarify)
    fix e' request'
    assume m: "(e', request') \<in> set rest"
    then have "TransactRequest.idempotentKey request' \<noteq> TransactRequest.idempotentKey request"
      using Cons.prems(2) c by (auto simp add: image_iff)
    then have "createIdempotencyKey (TransactRequest.idempotentKey request')
               \<noteq> createIdempotencyKey (TransactRequest.idempotentKey request)"
      by (simp add: createIdempotencyKey_inj)
    then have "idempotency t1 (createIdempotencyKey (TransactRequest.idempotentKey request'))
               = idempotency tbl (createIdempotencyKey (TransactRequest.idempotentKey request'))"
      using st(3) by blast
    then show "idempotency t1 (createIdempotencyKey (TransactRequest.idempotentKey request')) = None"
      using Cons.prems(3) m by auto
  qed
  have ih: "currentBalanceOf (balances (snd (run rest t1)) (createUserBalanceKey uid))
         = foldl applied (currentBalanceOf (balances t1 (createUserBalanceKey uid)))
             (zip (map snd rest) (fst (run rest t1)))"
    by (rule Cons.IH[OF p1 p2 p3])
  have b1: "currentBalanceOf (balances t1 (createUserBalanceKey uid))
            = applied (currentBalanceOf (balances tbl (createUserBalanceKey uid))) (request, r)"
    using st(1) u by simp
  show ?case
    unfolding c run_Cons by (simp add: t ih b1)
qed

lemma changed_balances_leave_token:
  assumes "alone e" and "balances (snd (transact e request tbl)) \<noteq> balances tbl"
  shows "\<exists>item. idempotency (snd (transact e request tbl))
                  (createIdempotencyKey (TransactRequest.idempotentKey request)) = Some item"
  using assms
  by (auto simp add: transact_def transact_try_def transact_catch_def commit_def recordFailure_def
        TransactWriteCommand_def PutIdempotency_def GetCommand_def alone_def Let_def
        split: option.splits sum.splits prod.splits if_splits)

lemma known_token_keeps_balances:
  assumes "alone e"
    and "idempotency tbl (createIdempotencyKey (TransactRequest.idempotentKey request)) = Some item"
  shows "balances (snd (transact e request tbl)) = balances tbl"
  using assms
  by (auto simp add: transact_def transact_try_def transact_catch_def recordFailure_def
        PutIdempotency_def GetCommand_def alone_def Let_def
        split: option.splits sum.splits prod.splits if_splits)

lemma same_token_changes_balance_once:
  assumes "alone e1" and "alone e2"
    and "TransactRequest.idempotentKey request2 = TransactRequest.idempotentKey request1"
  shows "balances (snd (transact e1 request1 tbl)) = balances tbl
         \<or> balances (snd (transact e2 request2 (snd (transact e1 request1 tbl))))
             = balances (snd (transact e1 request1 tbl))"
proof (cases "balances (snd (transact e1 request1 tbl)) = balances tbl")
  case True
  then show ?thesis by simp
next
  case False
  from changed_balances_leave_token[OF assms(1) False] obtain item where
    "idempotency (snd (transact e1 request1 tbl))
       (createIdempotencyKey (TransactRequest.idempotentKey request2)) = Some item"
    using assms(3) by auto
  from known_token_keeps_balances[OF assms(2) this] show ?thesis by simp
qed

text \<open>
  Every balance that the service writes is a double: a table whose balances are doubles
  keeps that property through a call that runs alone.
\<close>

lemma transact_keeps_balances_representable:
  assumes "\<forall>k b. balances tbl k = Some b \<longrightarrow> representable (BalanceItem.balance b)"
    and "alone e"
  shows "\<forall>k b. balances (snd (transact e request tbl)) k = Some b
           \<longrightarrow> representable (BalanceItem.balance b)"
  using assms
  by (auto simp add: transact_def transact_try_def transact_catch_def commit_def recordFailure_def
        TransactWriteCommand_def PutIdempotency_def GetCommand_def alone_def Let_def
        js_add_representable js_sub_representable
        split: option.splits sum.splits prod.splits if_splits)

section \<open>Idempotent replay\<close>

text \<open>
  Claim C1. A request that passes validation and whose idempotency token already has an
  item in the table (the lookup itself succeeding) gets the response rebuilt from that
  item: success exactly when the stored status is \<open>completed\<close>, the stored user, amount,
  type and resulting balance, and one of two replay messages. The table that \<open>transact\<close>
  returns is the table it was given: nothing is written, whatever the environment does
  after the lookup. And of two calls under one token, made one after the other, each
  running alone, at most one changes a balance item: when the first has changed one, the
  second leaves the balance items as the first left them.
\<close>

theorem replay_returns_stored_outcome:
  assumes "validate request = None"
    and "getIdempotencyFault e = None"
    and "idempotency tbl (createIdempotencyKey (TransactRequest.idempotentKey request)) = Some r"
  shows "transact e request tbl =
     (Inr \<lparr>TransactionResponse.success = (IdempotencyItem.status r = ''completed''),
           TransactionResponse.idempotentKey = TransactRequest.idempotentKey request,
           TransactionResponse.userId = IdempotencyItem.userId r,
           TransactionResponse.amount = IdempotencyItem.amount r,
           TransactionResponse.type = IdempotencyItem.type r,
           TransactionResponse.newBalance = IdempotencyItem.newBalance r,
           TransactionResponse.message =
             (if IdempotencyItem.status r = ''completed''
              then ''Transaction already processed (idempotent)''
              else ''Transaction previously failed'')\<rparr>, tbl)
     \<and> (\<forall>e1 e2 request1 request2 t.
           alone e1 \<and> alone e2
           \<and> TransactRequest.idempotentKey request2 = TransactRequest.idempotentKey request1
         \<longrightarrow> balances (snd (transact e1 request1 t)) = balances t
             \<or> balances (snd (transact e2 request2 (snd (transact e1 request1 t))))
                 = balances (snd (transact e1 request1 t)))"
proof
  show "transact e request tbl =
     (Inr \<lparr>TransactionResponse.success = (IdempotencyItem.status r = ''completed''),
           TransactionResponse.idempotentKey = TransactRequest.idempotentKey request,
           TransactionResponse.userId = IdempotencyItem.userId r,
           TransactionResponse.amount = IdempotencyItem.amount r,
           TransactionResponse.type = IdempotencyItem.type r,
           TransactionResponse.newBalance = IdempotencyItem.newBalance r,
           TransactionResponse.message =
             (if IdempotencyItem.status r = ''completed''
              then ''Transaction already processed (idempotent)''
              else ''Transaction previously failed'')\<rparr>, tbl)"
    using assms by (simp add: transact_def transact_try_def GetCommand_def replay_def)
  show "\<forall>e1 e2 request1 request2 t.
           alone e1 \<and> alone e2
           \<and> TransactRequest.idempotentKey request2 = TransactRequest.idempotentKey request1
         \<longrightarrow> balances (snd (transact e1 request1 t)) = balances t
             \<or> balances (snd (transact e2 request2 (snd (transact e1 request1 t))))
                 = balances (snd (transact e1 request1 t))"
    using same_token_changes_balance_once by blast
qed

theorem replay_returns_stored_outcome_witness:
  "validate (request_of ''t1'' ''u1'' ''250'' ''debit'') = None
   \<and> getIdempotencyFault clock_b = None
   \<and> idempotency replay_table (createIdempotencyKey ''t1'') = Some completed_item
   \<and> transact clock_b (request_of ''t1'' ''u1'' ''250'' ''debit'') replay_table =
      (Inr \<lparr>TransactionResponse.success = True,
           TransactionResponse.idempotentKey = ''t1'',
           TransactionResponse.userId = ''u1'',
           TransactionResponse.amount = ''100'',
           TransactionResponse.type = ''credit'',
           TransactionResponse.newBalance = Fin 100,
           TransactionResponse.message = ''Transaction already processed (idempotent)''\<rparr>, replay_table)
   \<and> balances (snd (transact clock_a (request_of ''a'' ''user1'' ''100'' ''credit'') seeded_table))
        (createUserBalanceKey ''user1'')
      \<noteq> balances seeded_table (createUserBalanceKey ''user1'')
   \<and> balances (snd (transact clock_b (request_of ''a'' ''user1'' ''70'' ''credit'')
                     (snd (transact clock_a (request_of ''a'' ''user1'' ''100'' ''credit'') seeded_table))))
      = balances (snd (transact clock_a (request_of ''a'' ''user1'' ''100'' ''credit'') seeded_table))"
proof -
  let ?r = "request_of ''t1'' ''u1'' ''250'' ''debit''"
  let ?r1 = "request_of ''a'' ''user1'' ''100'' ''credit''"
  let ?r2 = "request_of ''a'' ''user1'' ''70'' ''credit''"
  have v: "validate ?r = None" by code_simp
  have g: "getIdempotencyFault clock_b = None" by (simp add: clock_b_def quiet_def)
  have i: "idempotency replay_table (createIdempotencyKey (TransactRequest.idempotentKey ?r))
           = Some completed_item"
    by (simp add: replay_table_def empty_table_def request_of_def)
  have i': "idempotency replay_table (createIdempotencyKey ''t1'') = Some completed_item"
    using i by (simp add: request_of_def)
  note c = replay_returns_stored_outcome[OF v g i]
  have c1: "transact clock_b ?r replay_table =
      (Inr \<lparr>TransactionResponse.success = True,
           TransactionResponse.idempotentKey = ''t1'',
           TransactionResponse.userId = ''u1'',
           TransactionResponse.amount = ''100'',
           TransactionResponse.type = ''credit'',
           TransactionResponse.newBalance = Fin 100,
           TransactionResponse.message = ''Transaction already processed (idempotent)''\<rparr>, replay_table)"
    using c by (simp add: request_of_def completed_item_def)
  have al: "alone clock_a \<and> alone clock_b
            \<and> TransactRequest.idempotentKey ?r2 = TransactRequest.idempotentKey ?r1"
    by (simp add: alone_def clock_a_def clock_b_def quiet_def request_of_def)
  have ne: "balances (snd (transact clock_a ?r1 seeded_table)) (createUserBalanceKey ''user1'')
      \<noteq> balances seeded_table (createUserBalanceKey ''user1'')"
    by code_simp
  then have ne': "balances (snd (transact clock_a ?r1 seeded_table)) \<noteq> balances seeded_table"
    by auto
  have c2: "balances (snd (transact clock_b ?r2 (snd (transact clock_a ?r1 seeded_table))))
      = balances (snd (transact clock_a ?r1 seeded_table))"
    using c al ne' by blast
  show ?thesis
    by (intro conjI) (rule v g i' c1 ne c2)+
qed

section \<open>Reading a balance\<close>

text \<open>
  Claim C9. For a user id that is not empty after trimming, \<open>getCurrentBalance\<close> (the
  read succeeding) returns the id as given together with the balance of the item stored
  under \<open>USER#<id>\<close>, \<open>BALANCE\<close>, or 0 when there is no such item; for an id that is
  empty after trimming it fails with the code \<open>INVALID_USER_ID\<close>; in every case, also
  when the read fails, the table is returned as it was given.
\<close>

theorem getCurrentBalance_reads_balance:
  "(trim uid \<noteq> [] \<longrightarrow>
      getCurrentBalance None uid tbl =
        (Inr \<lparr>BalanceResponse.userId = uid,
              BalanceResponse.balance =
                (case balances tbl (''USER#'' @ uid, ''BALANCE'') of
                   None \<Rightarrow> Fin 0
                 | Some b \<Rightarrow> BalanceItem.balance b)\<rparr>, tbl))
   \<and> (trim uid = [] \<longrightarrow>
      getCurrentBalance fault uid tbl =
        (Inl (BalanceError ''Invalid userId: must be a non-empty string'' ''INVALID_USER_ID''), tbl))
   \<and> snd (getCurrentBalance fault uid tbl) = tbl"
  by (auto simp add: getCurrentBalance_def trim_Nil GetCommand_def createUserBalanceKey_def
        split: option.splits)

theorem getCurrentBalance_reads_balance_witness:
  "trim ''user2'' \<noteq> []
   \<and> getCurrentBalance None ''user2'' seeded_table =
       (Inr \<lparr>BalanceResponse.userId = ''user2'', BalanceResponse.balance = Fin 500\<rparr>, seeded_table)
   \<and> trim ''nobody'' \<noteq> []
   \<and> getCurrentBalance None ''nobody'' seeded_table =
       (Inr \<lparr>BalanceResponse.userId = ''nobody'', BalanceResponse.balance = Fin 0\<rparr>, seeded_table)
   \<and> trim ''   '' = []
   \<and> getCurrentBalance None ''   '' seeded_table =
       (Inl (BalanceError ''Invalid userId: must be a non-empty string'' ''INVALID_USER_ID''), seeded_table)"
proof -
  have a: "trim ''user2'' \<noteq> []" by (simp add: trim_def is_whitespace_def)
  have b: "trim ''nobody'' \<noteq> []" by (simp add: trim_def is_whitespace_def)
  have c: "trim ''   '' = []" by (simp add: trim_def is_whitespace_def)
  have l2: "balances seeded_table (''USER#user2'', ''BALANCE'') = Some (seedItem ''user2'' (Fin 500))"
    by (simp add: seeded_table_def empty_table_def createUserBalanceKey_def)
  have ln: "balances seeded_table (''USER#nobody'', ''BALANCE'') = None"
    by (simp add: seeded_table_def empty_table_def createUserBalanceKey_def)
  show ?thesis
    using a b c
      getCurrentBalance_reads_balance[of "''user2''" seeded_table None]
      getCurrentBalance_reads_balance[of "''nobody''" seeded_table None]
      getCurrentBalance_reads_balance[of "''   ''" seeded_table None]
    by (simp add: l2 ln seedItem_def)
qed

section \<open>Failures\<close>

text \<open>
  Claim C7. When the \<open>try\<close> block of a validated request throws (insufficient funds, a
  race condition, or a failure of a store call), \<open>transact\<close> puts an idempotency item with
  status \<open>failed\<close> and resulting balance 0 under the key of the same token, on the table as
  the other clients have left it by then, and then raises the error that was thrown: a
  \<open>BalanceError\<close> as it is, a failure of the store wrapped as \<open>TRANSACTION_ERROR\<close> with the
  message of the original. When the put itself fails nothing is written and the error
  raised is the same. A request that fails validation gets the validation error and the
  table as it was: no item is written.
\<close>

theorem failure_recorded_and_propagated:
  "(validate request = None
      \<and> transact_try e request (parseFloat (TransactRequest.amount request)) tbl = (Inl error, t)
    \<longrightarrow>
      fst (transact e request tbl) =
        Inl (case error of
               Balance b \<Rightarrow> b
             | Store ex \<Rightarrow> BalanceError (''Transaction failed: '' @ exn_message ex) ''TRANSACTION_ERROR'')
      \<and> (\<exists>b m. error = Balance (InsufficientFundsError (TransactRequest.userId request) b m)
            \<or> error = Balance (RaceConditionError (TransactRequest.userId request))
            \<or> (\<exists>ex. error = Store ex))
      \<and> snd (transact e request tbl) =
        (case putFault e of
           Some ex \<Rightarrow> beforePut e t
         | None \<Rightarrow>
             (beforePut e t)\<lparr>idempotency := (idempotency (beforePut e t))
               ((''TXN#'' @ TransactRequest.idempotentKey request, ''RESULT'') \<mapsto>
                  \<lparr>IdempotencyItem.idempotentKey = TransactRequest.idempotentKey request,
                   IdempotencyItem.userId = TransactRequest.userId request,
                   IdempotencyItem.amount = TransactRequest.amount request,
                   IdempotencyItem.type = TransactRequest.type request,
                   IdempotencyItem.newBalance = Fin 0,
                   IdempotencyItem.status = ''failed'',
                   IdempotencyItem.timestamp = catchTimestamp e,
                   IdempotencyItem.ttl = Some (catchNow e div 1000 + 2592000)\<rparr>)\<rparr>))
   \<and> (validate request = Some err \<longrightarrow> transact e request tbl = (Inl err, tbl))"
proof (intro conjI impI)
  assume a: "validate request = None
      \<and> transact_try e request (parseFloat (TransactRequest.amount request)) tbl = (Inl error, t)"
  then have tv: "transact e request tbl = (Inl (rethrown error), recordFailure e request t)"
    by (simp add: transact_valid)
  show "fst (transact e request tbl) =
        Inl (case error of
               Balance b \<Rightarrow> b
             | Store ex \<Rightarrow> BalanceError (''Transaction failed: '' @ exn_message ex) ''TRANSACTION_ERROR'')"
    by (simp add: tv rethrown_def)
  show "\<exists>b m. error = Balance (InsufficientFundsError (TransactRequest.userId request) b m)
            \<or> error = Balance (RaceConditionError (TransactRequest.userId request))
            \<or> (\<exists>ex. error = Store ex)"
    using a transact_try_errors[of e request _ tbl error t] by blast
  show "snd (transact e request tbl) =
        (case putFault e of
           Some ex \<Rightarrow> beforePut e t
         | None \<Rightarrow>
             (beforePut e t)\<lparr>idempotency := (idempotency (beforePut e t))
               ((''TXN#'' @ TransactRequest.idempotentKey request, ''RESULT'') \<mapsto>
                  \<lparr>IdempotencyItem.idempotentKey = TransactRequest.idempotentKey request,
                   IdempotencyItem.userId = TransactRequest.userId request,
                   IdempotencyItem.amount = TransactRequest.amount request,
                   IdempotencyItem.type = TransactRequest.type request,
                   IdempotencyItem.newBalance = Fin 0,
                   IdempotencyItem.status = ''failed'',
                   IdempotencyItem.timestamp = catchTimestamp e,
                   IdempotencyItem.ttl = Some (catchNow e div 1000 + 2592000)\<rparr>)\<rparr>)"
    by (simp add: tv recordFailure_def PutIdempotency_def failedIdempotencyItem_def
          createIdempotencyKey_def BALANCE_TTL_DAYS_def split: option.splits)
next
  assume "validate request = Some err"
  then show "transact e request tbl = (Inl err, tbl)" by (rule transact_invalid)
qed

lemma parseFloat_150: "parseFloat ''150'' = Fin 150"
  by code_simp

theorem failure_recorded_and_propagated_witness:
  "validate (request_of ''t2'' ''user3'' ''150'' ''debit'') = None
   \<and> transact_try (quiet ''2024-03-01T10:00:00.000Z'' 1709287200000)
         (request_of ''t2'' ''user3'' ''150'' ''debit'') (parseFloat ''150'') seeded_table
       = (Inl (Balance (InsufficientFundsError ''user3'' (Fin 0) (Fin 150))), seeded_table)
   \<and> fst (transact (quiet ''2024-03-01T10:00:00.000Z'' 1709287200000)
         (request_of ''t2'' ''user3'' ''150'' ''debit'') seeded_table)
       = Inl (InsufficientFundsError ''user3'' (Fin 0) (Fin 150))
   \<and> idempotency (snd (transact (quiet ''2024-03-01T10:00:00.000Z'' 1709287200000)
         (request_of ''t2'' ''user3'' ''150'' ''debit'') seeded_table)) (''TXN#t2'', ''RESULT'')
       = Some \<lparr>IdempotencyItem.idempotentKey = ''t2'', IdempotencyItem.userId = ''user3'',
               IdempotencyItem.amount = ''150'', IdempotencyItem.type = ''debit'',
               IdempotencyItem.newBalance = Fin 0, IdempotencyItem.status = ''failed'',
               IdempotencyItem.timestamp = ''2024-03-01T10:00:00.000Z'',
               IdempotencyItem.ttl = Some 1711879200\<rparr>
   \<and> validate (request_of ''t3'' ''user3'' ''abc'' ''debit'') = Some (InvalidAmountError ''abc'')
   \<and> transact (quiet ''2024-03-01T10:00:00.000Z'' 1709287200000)
         (request_of ''t3'' ''user3'' ''abc'' ''debit'') seeded_table
       = (Inl (InvalidAmountError ''abc''), seeded_table)"
proof -
  let ?q = "quiet ''2024-03-01T10:00:00.000Z'' 1709287200000"
  let ?r = "request_of ''t2'' ''user3'' ''150'' ''debit''"
  let ?bad = "request_of ''t3'' ''user3'' ''abc'' ''debit''"
  have v: "validate ?r = None" by code_simp
  have w: "validate ?bad = Some (InvalidAmountError ''abc'')" by code_simp
  have tt: "transact_try ?q ?r (parseFloat (TransactRequest.amount ?r)) seeded_table
            = (Inl (Balance (InsufficientFundsError ''user3'' (Fin 0) (Fin 150))), seeded_table)"
    by (simp add: transact_try_def GetCommand_def quiet_def seeded_table_def empty_table_def
          createIdempotencyKey_def createUserBalanceKey_def currentBalanceOf_def request_of_def
          seedItem_def js_sub_def binary64_neg_numeral parseFloat_150 Let_def)
  have am: "TransactRequest.amount ?r = ''150''" by (simp add: request_of_def)
  show ?thesis
    using v w tt
      failure_recorded_and_propagated[of ?r ?q seeded_table
        "Balance (InsufficientFundsError ''user3'' (Fin 0) (Fin 150))" seeded_table]
      failure_recorded_and_propagated[of ?bad ?q seeded_table _ _ "InvalidAmountError ''abc''"]
    by (simp add: am quiet_def request_of_def)
qed

section \<open>The version check\<close>

text \<open>
  A validated request with a new token reads the balance item, passes the funds check, and
  reaches the transactional write; by then another client has changed the version of the
  item. The write is cancelled and the exception of the cancellation is not an instance
  of the class that the inner \<open>catch\<close> tests for, so \<open>transact\<close> raises \<open>TRANSACTION_ERROR\<close>
  with the message of the cancellation, never \<open>RaceConditionError\<close>. The table it leaves is
  the one the other clients made, with at most the record of the failure added.
\<close>

lemma version_conflict_cancelled:
  assumes "validate request = None"
    and "getIdempotencyFault e = None" and "getBalanceFault e = None" and "commitFault e = None"
    and "idempotency tbl (createIdempotencyKey (TransactRequest.idempotentKey request)) = None"
    and "TransactRequest.type request = ''credit''
         \<or> \<not> js_less (js_sub (currentBalanceOf (balances (beforeGetBalance e tbl)
                                    (createUserBalanceKey (TransactRequest.userId request))))
                          (parseFloat (TransactRequest.amount request))) (Fin 0)"
    and "balances (beforeCommit e (beforeGetBalance e tbl))
           (createUserBalanceKey (TransactRequest.userId request)) = Some b'"
    and "BalanceItem.version b' \<noteq>
           (case balances (beforeGetBalance e tbl)
                   (createUserBalanceKey (TransactRequest.userId request)) of
              None \<Rightarrow> 0 | Some b \<Rightarrow> BalanceItem.version b)"
  shows "fst (transact e request tbl)
           = Inl (BalanceError (''Transaction failed: '' @ cancellationMessage e) ''TRANSACTION_ERROR'')"
    and "fst (transact e request tbl) \<noteq> Inl (RaceConditionError (TransactRequest.userId request))"
    and "snd (transact e request tbl) = recordFailure e request (beforeCommit e (beforeGetBalance e tbl))"
    and "balances (snd (transact e request tbl))
           = balances (beforePut e (beforeCommit e (beforeGetBalance e tbl)))"
    and "transactions (snd (transact e request tbl))
           = transactions (beforePut e (beforeCommit e (beforeGetBalance e tbl)))"
proof -
  let ?t2 = "beforeCommit e (beforeGetBalance e tbl)"
  have ne: "BalanceItem.version b' \<noteq>
           currentVersionOf (balances (beforeGetBalance e tbl)
             (createUserBalanceKey (TransactRequest.userId request)))"
    using assms(8) unfolding currentVersionOf_def .
  have "transact_try e request (parseFloat (TransactRequest.amount request)) tbl
        = (Inl (Store (TransactionCanceledException (cancellationMessage e))), ?t2)"
    using assms(6)
    by (auto simp add: transact_try_fresh[OF assms(2,3,5)] Let_def
          commit_rejected[OF assms(4,7) ne])
  then have t: "transact e request tbl
        = (Inl (BalanceError (''Transaction failed: '' @ cancellationMessage e) ''TRANSACTION_ERROR''),
           recordFailure e request ?t2)"
    by (simp add: transact_valid[OF assms(1)] rethrown_def)
  show "fst (transact e request tbl)
           = Inl (BalanceError (''Transaction failed: '' @ cancellationMessage e) ''TRANSACTION_ERROR'')"
    using t by simp
  show "fst (transact e request tbl) \<noteq> Inl (RaceConditionError (TransactRequest.userId request))"
    using t by simp
  show "snd (transact e request tbl) = recordFailure e request ?t2"
    using t by simp
  show "balances (snd (transact e request tbl)) = balances (beforePut e ?t2)"
    using t by (simp add: recordFailure_frame)
  show "transactions (snd (transact e request tbl)) = transactions (beforePut e ?t2)"
    using t by (simp add: recordFailure_frame)
qed

text \<open>
  The inner \<open>catch\<close> raises \<open>RaceConditionError\<close> only when the store call fails with a
  \<open>ConditionalCheckFailedException\<close> (\<open>commitFault\<close>), which a failed condition of the
  transactional write is not.
\<close>

lemma race_condition_needs_conditional_check_failed:
  assumes "commit e request amt br ver nb tbl = (Inl (Balance (RaceConditionError u)), tbl')"
  shows "\<exists>m. commitFault e = Some (ConditionalCheckFailedException m)"
proof (cases "commitFault e")
  case None
  then show ?thesis
    using assms
    by (auto simp add: commit_def TransactWriteCommand_def Let_def split: if_splits)
next
  case (Some ex)
  then show ?thesis
    using assms
    by (cases ex) (auto simp add: commit_def TransactWriteCommand_def Let_def)
qed

text \<open>
  Claim C5. The claim asks that a failed version check makes \<open>transact\<close> raise
  \<open>RaceConditionError\<close> with the user id, the batch writing nothing, without a retry. The
  code does not raise that error. On the seeded table, where \<open>user1\<close> has 1000 at version
  1, a debit of 50 under the token \<open>b\<close> reads the item; before its commit another
  client's credit of 100 advances the item to version 2. The write is cancelled and
  writes nothing, no second attempt is made (one from a fresh read would succeed with
  1050), and the error raised is \<open>BalanceError\<close> with the code \<open>TRANSACTION_ERROR\<close>, not
  \<open>RaceConditionError\<close>; the token is left with a \<open>failed\<close> record.
\<close>

theorem version_conflict_raises_transaction_error:
  "validate (request_of ''b'' ''user1'' ''50'' ''debit'') = None
   \<and> balances (beforeGetBalance overtaken seeded_table) (createUserBalanceKey ''user1'')
       = Some (seedItem ''user1'' (Fin 1000))
   \<and> BalanceItem.version (seedItem ''user1'' (Fin 1000)) = 1
   \<and> balances (beforeCommit overtaken (beforeGetBalance overtaken seeded_table))
         (createUserBalanceKey ''user1'')
       = Some \<lparr>BalanceItem.userId = ''user1'', BalanceItem.balance = Fin 1100,
               BalanceItem.version = 2,
               BalanceItem.createdAt = ''2024-01-01T00:00:00.000Z'',
               BalanceItem.updatedAt = ''2024-03-01T10:00:00.000Z''\<rparr>
   \<and> fst (transact overtaken (request_of ''b'' ''user1'' ''50'' ''debit'') seeded_table)
       = Inl (BalanceError
                (''Transaction failed: Transaction cancelled, please refer cancellation ''
                 @ ''reasons for specific reasons [ConditionalCheckFailed, None, None]'')
                ''TRANSACTION_ERROR'')
   \<and> fst (transact overtaken (request_of ''b'' ''user1'' ''50'' ''debit'') seeded_table)
       \<noteq> Inl (RaceConditionError ''user1'')
   \<and> balances (snd (transact overtaken (request_of ''b'' ''user1'' ''50'' ''debit'') seeded_table))
       = balances (beforeCommit overtaken (beforeGetBalance overtaken seeded_table))
   \<and> transactions (snd (transact overtaken (request_of ''b'' ''user1'' ''50'' ''debit'') seeded_table))
       = transactions (beforeCommit overtaken (beforeGetBalance overtaken seeded_table))
   \<and> idempotency (snd (transact overtaken (request_of ''b'' ''user1'' ''50'' ''debit'') seeded_table))
         (createIdempotencyKey ''b'')
       = Some \<lparr>IdempotencyItem.idempotentKey = ''b'', IdempotencyItem.userId = ''user1'',
               IdempotencyItem.amount = ''50'', IdempotencyItem.type = ''debit'',
               IdempotencyItem.newBalance = Fin 0, IdempotencyItem.status = ''failed'',
               IdempotencyItem.timestamp = ''2024-03-01T10:00:00.250Z'',
               IdempotencyItem.ttl = Some 1711879200\<rparr>
   \<and> fst (transact clock_b (request_of ''b'' ''user1'' ''50'' ''debit'')
             (beforeCommit overtaken (beforeGetBalance overtaken seeded_table)))
       = Inr \<lparr>TransactionResponse.success = True, TransactionResponse.idempotentKey = ''b'',
              TransactionResponse.userId = ''user1'', TransactionResponse.amount = ''50'',
              TransactionResponse.type = ''debit'', TransactionResponse.newBalance = Fin 1050,
              TransactionResponse.message = ''Transaction completed successfully''\<rparr>"
proof -
  let ?r = "request_of ''b'' ''user1'' ''50'' ''debit''"
  let ?t2 = "beforeCommit overtaken (beforeGetBalance overtaken seeded_table)"
  let ?b = "\<lparr>BalanceItem.userId = ''user1'', BalanceItem.balance = Fin 1100,
               BalanceItem.version = 2,
               BalanceItem.createdAt = ''2024-01-01T00:00:00.000Z'',
               BalanceItem.updatedAt = ''2024-03-01T10:00:00.000Z''\<rparr>"
  have u: "TransactRequest.userId ?r = ''user1''" by (simp add: request_of_def)
  have bp: "beforePut overtaken = (\<lambda>t. t)" by (simp add: overtaken_def clock_b_def quiet_def)
  have h1: "validate ?r = None" by code_simp
  have h2: "getIdempotencyFault overtaken = None" by code_simp
  have h3: "getBalanceFault overtaken = None" by code_simp
  have h4: "commitFault overtaken = None" by code_simp
  have h5: "idempotency seeded_table (createIdempotencyKey (TransactRequest.idempotentKey ?r)) = None"
    by code_simp
  have h6: "TransactRequest.type ?r = ''credit''
         \<or> \<not> js_less (js_sub (currentBalanceOf (balances (beforeGetBalance overtaken seeded_table)
                                    (createUserBalanceKey (TransactRequest.userId ?r))))
                          (parseFloat (TransactRequest.amount ?r))) (Fin 0)"
    by code_simp
  have h7: "balances ?t2 (createUserBalanceKey (TransactRequest.userId ?r)) = Some ?b"
    by code_simp
  have h8: "BalanceItem.version ?b \<noteq>
           (case balances (beforeGetBalance overtaken seeded_table)
                   (createUserBalanceKey (TransactRequest.userId ?r)) of
              None \<Rightarrow> 0 | Some b \<Rightarrow> BalanceItem.version b)"
    by code_simp
  have r: "balances (beforeGetBalance overtaken seeded_table) (createUserBalanceKey ''user1'')
       = Some (seedItem ''user1'' (Fin 1000))"
    by code_simp
  have v: "BalanceItem.version (seedItem ''user1'' (Fin 1000)) = 1" by (simp add: seedItem_def)
  have h7': "balances ?t2 (createUserBalanceKey ''user1'') = Some ?b" by code_simp
  have c1: "fst (transact overtaken ?r seeded_table)
       = Inl (BalanceError
                (''Transaction failed: Transaction cancelled, please refer cancellation ''
                 @ ''reasons for specific reasons [ConditionalCheckFailed, None, None]'')
                ''TRANSACTION_ERROR'')"
    by code_simp
  have c2: "fst (transact overtaken ?r seeded_table) \<noteq> Inl (RaceConditionError ''user1'')"
    using version_conflict_cancelled(2)[OF h1 h2 h3 h4 h5 h6 h7 h8] u by simp
  have c3: "balances (snd (transact overtaken ?r seeded_table)) = balances ?t2"
    using version_conflict_cancelled(4)[OF h1 h2 h3 h4 h5 h6 h7 h8] bp by simp
  have c4: "transactions (snd (transact overtaken ?r seeded_table)) = transactions ?t2"
    using version_conflict_cancelled(5)[OF h1 h2 h3 h4 h5 h6 h7 h8] bp by simp
  have c5: "idempotency (snd (transact overtaken ?r seeded_table)) (createIdempotencyKey ''b'')
       = Some \<lparr>IdempotencyItem.idempotentKey = ''b'', IdempotencyItem.userId = ''user1'',
               IdempotencyItem.amount = ''50'', IdempotencyItem.type = ''debit'',
               IdempotencyItem.newBalance = Fin 0, IdempotencyItem.status = ''failed'',
               IdempotencyItem.timestamp = ''2024-03-01T10:00:00.250Z'',
               IdempotencyItem.ttl = Some 1711879200\<rparr>"
    by code_simp
  have c6: "fst (transact clock_b ?r ?t2)
       = Inr \<lparr>TransactionResponse.success = True, TransactionResponse.idempotentKey = ''b'',
              TransactionResponse.userId = ''user1'', TransactionResponse.amount = ''50'',
              TransactionResponse.type = ''debit'', TransactionResponse.newBalance = Fin 1050,
              TransactionResponse.message = ''Transaction completed successfully''\<rparr>"
    by code_simp
  show ?thesis
    by (intro conjI) (rule h1 r v h7' c1 c2 c3 c4 c5 c6)+
qed

text \<open>
  Claim C2. The version read is the version of the balance item that is stored under the
  user's key when the call reads it, and 0 when no item is stored there. When a validated
  request with a new token succeeds, the condition of the write held on the table at the
  time of the commit: no balance item under the user's key, or one whose version is the
  version read; and the balance item the call leaves has the version read plus 1, so 1
  for a user without an item. Consequently, if this call runs alone between the balance
  read and the commit of a second call on the same user, which therefore read the same
  version, the second call does not succeed.
\<close>

theorem commit_checks_and_advances_version:
  assumes "validate request = None"
    and "idempotency tbl (createIdempotencyKey (TransactRequest.idempotentKey request)) = None"
    and "transact e request tbl = (Inr resp, tbl')"
  shows "(balances (beforeCommit e (beforeGetBalance e tbl))
             (createUserBalanceKey (TransactRequest.userId request)) = None
          \<or> (\<exists>b. balances (beforeCommit e (beforeGetBalance e tbl))
                    (createUserBalanceKey (TransactRequest.userId request)) = Some b
                \<and> BalanceItem.version b =
                    (case balances (beforeGetBalance e tbl)
                            (createUserBalanceKey (TransactRequest.userId request)) of
                       None \<Rightarrow> 0 | Some b0 \<Rightarrow> BalanceItem.version b0)))
     \<and> (\<exists>b'. balances tbl' (createUserBalanceKey (TransactRequest.userId request)) = Some b'
            \<and> BalanceItem.version b' =
                (case balances (beforeGetBalance e tbl)
                        (createUserBalanceKey (TransactRequest.userId request)) of
                   None \<Rightarrow> 0 | Some b0 \<Rightarrow> BalanceItem.version b0) + 1)
     \<and> (\<forall>e2 request2.
           alone e \<and> beforeGetBalance e2 = (\<lambda>t. t)
           \<and> beforeCommit e2 = (\<lambda>t. snd (transact e request t))
           \<and> TransactRequest.userId request2 = TransactRequest.userId request
           \<and> validate request2 = None
           \<and> idempotency tbl (createIdempotencyKey (TransactRequest.idempotentKey request2)) = None
           \<longrightarrow> (\<exists>err. fst (transact e2 request2 tbl) = Inl err))"
proof -
  let ?bk = "createUserBalanceKey (TransactRequest.userId request)"
  let ?t1 = "beforeGetBalance e tbl"
  let ?v = "currentVersionOf (balances ?t1 ?bk)"
  have tv: "transact_try e request (parseFloat (TransactRequest.amount request)) tbl = (Inr resp, tbl')"
    using assms(3) by (auto simp add: transact_valid[OF assms(1)] split: prod.splits sum.splits)
  have g1: "getIdempotencyFault e = None"
    using tv by (auto simp add: transact_try_def GetCommand_def split: option.splits)
  have g2: "getBalanceFault e = None"
    using tv assms(2) g1 by (auto simp add: transact_try_def GetCommand_def Let_def split: option.splits)
  obtain nb where c: "commit e request (parseFloat (TransactRequest.amount request))
        (balances ?t1 ?bk) ?v nb (beforeCommit e ?t1) = (Inr resp, tbl')"
    using tv by (auto simp add: transact_try_fresh[OF g1 g2 assms(2)] Let_def split: if_splits)
  have cond: "condition_holds (beforeCommit e ?t1) ?bk ?v" by (rule commit_accepted(2)[OF c])
  have written: "\<exists>b'. balances tbl' ?bk = Some b' \<and> BalanceItem.version b' = ?v + 1"
    using commit_accepted(3)[OF c] by blast
  have first: "balances (beforeCommit e ?t1) ?bk = None
          \<or> (\<exists>b. balances (beforeCommit e ?t1) ?bk = Some b \<and> BalanceItem.version b = ?v)"
    using cond by (auto simp add: condition_holds_def split: option.splits)
  have second: "\<exists>err. fst (transact e2 request2 tbl) = Inl err"
    if h: "alone e \<and> beforeGetBalance e2 = (\<lambda>t. t)
           \<and> beforeCommit e2 = (\<lambda>t. snd (transact e request t))
           \<and> TransactRequest.userId request2 = TransactRequest.userId request
           \<and> validate request2 = None
           \<and> idempotency tbl (createIdempotencyKey (TransactRequest.idempotentKey request2)) = None"
    for e2 request2
  proof -
    have t1: "?t1 = tbl" using h by (simp add: alone_def)
    have t2: "snd (transact e request tbl) = tbl'" using assms(3) by simp
    obtain b' where b': "balances tbl' ?bk = Some b'" "BalanceItem.version b' = ?v + 1"
      using written by blast
    have ne: "BalanceItem.version b' \<noteq> currentVersionOf (balances tbl ?bk)"
      using b'(2) t1 by simp
    have u: "TransactRequest.userId request2 = TransactRequest.userId request" using h by simp
    have "\<exists>x t. transact_try e2 request2 (parseFloat (TransactRequest.amount request2)) tbl = (Inl x, t)"
      using h b'(1) ne
      by (auto simp add: transact_try_def GetCommand_def Let_def u t2 commit_def
            TransactWriteCommand_def condition_holds_def split: option.splits if_splits)
    then show ?thesis
      using h by (auto simp add: transact_valid)
  qed
  have first': "balances (beforeCommit e ?t1) ?bk = None
          \<or> (\<exists>b. balances (beforeCommit e ?t1) ?bk = Some b
                \<and> BalanceItem.version b =
                    (case balances ?t1 ?bk of None \<Rightarrow> 0 | Some b0 \<Rightarrow> BalanceItem.version b0))"
    using first unfolding currentVersionOf_def .
  have written': "\<exists>b'. balances tbl' ?bk = Some b'
            \<and> BalanceItem.version b' =
                (case balances ?t1 ?bk of None \<Rightarrow> 0 | Some b0 \<Rightarrow> BalanceItem.version b0) + 1"
    using written unfolding currentVersionOf_def .
  show ?thesis using first' written' second by blast
qed

theorem commit_checks_and_advances_version_witness:
  "validate (request_of ''a'' ''user1'' ''100'' ''credit'') = None
   \<and> idempotency seeded_table (createIdempotencyKey ''a'') = None
   \<and> balances (beforeGetBalance clock_a seeded_table) (createUserBalanceKey ''user1'')
       = Some (seedItem ''user1'' (Fin 1000))
   \<and> BalanceItem.version (seedItem ''user1'' (Fin 1000)) = 1
   \<and> (\<exists>b'. balances (snd (transact clock_a (request_of ''a'' ''user1'' ''100'' ''credit'') seeded_table))
                (createUserBalanceKey ''user1'') = Some b'
            \<and> BalanceItem.version b' = 2)
   \<and> validate (request_of ''n'' ''user9'' ''25'' ''credit'') = None
   \<and> idempotency seeded_table (createIdempotencyKey ''n'') = None
   \<and> balances (beforeGetBalance clock_a seeded_table) (createUserBalanceKey ''user9'') = None
   \<and> (\<exists>b'. balances (snd (transact clock_a (request_of ''n'' ''user9'' ''25'' ''credit'') seeded_table))
                (createUserBalanceKey ''user9'') = Some b'
            \<and> BalanceItem.version b' = 1)
   \<and> fst (transact clock_b (request_of ''b'' ''user1'' ''50'' ''debit'') seeded_table)
       = Inr \<lparr>TransactionResponse.success = True, TransactionResponse.idempotentKey = ''b'',
              TransactionResponse.userId = ''user1'', TransactionResponse.amount = ''50'',
              TransactionResponse.type = ''debit'', TransactionResponse.newBalance = Fin 950,
              TransactionResponse.message = ''Transaction completed successfully''\<rparr>
   \<and> (\<exists>err. fst (transact overtaken (request_of ''b'' ''user1'' ''50'' ''debit'') seeded_table) = Inl err)"
proof -
  let ?a = "request_of ''a'' ''user1'' ''100'' ''credit''"
  let ?b = "request_of ''b'' ''user1'' ''50'' ''debit''"
  let ?resp = "\<lparr>TransactionResponse.success = True, TransactionResponse.idempotentKey = ''a'',
              TransactionResponse.userId = ''user1'', TransactionResponse.amount = ''100'',
              TransactionResponse.type = ''credit'', TransactionResponse.newBalance = Fin 1100,
              TransactionResponse.message = ''Transaction completed successfully''\<rparr>"
  have ua: "TransactRequest.userId ?a = ''user1''" "TransactRequest.idempotentKey ?a = ''a''"
    by (simp_all add: request_of_def)
  have h1: "validate ?a = None" by code_simp
  have h2: "idempotency seeded_table (createIdempotencyKey (TransactRequest.idempotentKey ?a)) = None"
    by code_simp
  have f: "fst (transact clock_a ?a seeded_table) = Inr ?resp" by code_simp
  have h3: "transact clock_a ?a seeded_table = (Inr ?resp, snd (transact clock_a ?a seeded_table))"
    using f by (simp add: prod_eq_iff)
  have r1: "balances (beforeGetBalance clock_a seeded_table) (createUserBalanceKey ''user1'')
       = Some (seedItem ''user1'' (Fin 1000))"
    by code_simp
  have v1: "BalanceItem.version (seedItem ''user1'' (Fin 1000)) = 1" by (simp add: seedItem_def)
  let ?n = "request_of ''n'' ''user9'' ''25'' ''credit''"
  let ?respn = "\<lparr>TransactionResponse.success = True, TransactionResponse.idempotentKey = ''n'',
              TransactionResponse.userId = ''user9'', TransactionResponse.amount = ''25'',
              TransactionResponse.type = ''credit'', TransactionResponse.newBalance = Fin 25,
              TransactionResponse.message = ''Transaction completed successfully''\<rparr>"
  have un: "TransactRequest.userId ?n = ''user9''" "TransactRequest.idempotentKey ?n = ''n''"
    by (simp_all add: request_of_def)
  have n1: "validate ?n = None" by code_simp
  have n2: "idempotency seeded_table (createIdempotencyKey (TransactRequest.idempotentKey ?n)) = None"
    by code_simp
  have fn: "fst (transact clock_a ?n seeded_table) = Inr ?respn" by code_simp
  have n3: "transact clock_a ?n seeded_table = (Inr ?respn, snd (transact clock_a ?n seeded_table))"
    using fn by (simp add: prod_eq_iff)
  have r9: "balances (beforeGetBalance clock_a seeded_table) (createUserBalanceKey ''user9'') = None"
    by code_simp
  have n2': "idempotency seeded_table (createIdempotencyKey ''n'') = None" by code_simp
  note cn = commit_checks_and_advances_version[OF n1 n2 n3]
  have c9: "\<exists>b'. balances (snd (transact clock_a ?n seeded_table)) (createUserBalanceKey ''user9'') = Some b'
            \<and> BalanceItem.version b' = 1"
    using cn r9 by (simp add: un)
  have alone_b: "fst (transact clock_b ?b seeded_table)
       = Inr \<lparr>TransactionResponse.success = True, TransactionResponse.idempotentKey = ''b'',
              TransactionResponse.userId = ''user1'', TransactionResponse.amount = ''50'',
              TransactionResponse.type = ''debit'', TransactionResponse.newBalance = Fin 950,
              TransactionResponse.message = ''Transaction completed successfully''\<rparr>"
    by code_simp
  have e2: "alone clock_a \<and> beforeGetBalance overtaken = (\<lambda>t. t)
           \<and> beforeCommit overtaken = (\<lambda>t. snd (transact clock_a ?a t))
           \<and> TransactRequest.userId ?b = TransactRequest.userId ?a
           \<and> validate ?b = None
           \<and> idempotency seeded_table (createIdempotencyKey (TransactRequest.idempotentKey ?b)) = None"
  proof (intro conjI)
    show "alone clock_a" by (simp add: alone_def clock_a_def quiet_def)
    show "beforeGetBalance overtaken = (\<lambda>t. t)" by (simp add: overtaken_def clock_b_def quiet_def)
    show "beforeCommit overtaken = (\<lambda>t. snd (transact clock_a ?a t))" by (simp add: overtaken_def)
    show "TransactRequest.userId ?b = TransactRequest.userId ?a" by (simp add: request_of_def)
    show "validate ?b = None" by code_simp
    show "idempotency seeded_table (createIdempotencyKey (TransactRequest.idempotentKey ?b)) = None"
      by code_simp
  qed
  note c = commit_checks_and_advances_version[OF h1 h2 h3]
  have c2: "\<exists>b'. balances (snd (transact clock_a ?a seeded_table)) (createUserBalanceKey ''user1'') = Some b'
            \<and> BalanceItem.version b' = 2"
    using c r1 v1 by (simp add: ua numeral_2_eq_2)
  have c3: "\<exists>err. fst (transact overtaken ?b seeded_table) = Inl err"
    using c e2 by blast
  have h2': "idempotency seeded_table (createIdempotencyKey ''a'') = None" by code_simp
  show ?thesis
    by (intro conjI) (rule h1 h2' r1 v1 c2 n1 n2' r9 c9 alone_b c3)+
qed

section \<open>Validation of the amount\<close>

text \<open>
  Where the amount check rejects. For a request with a valid token and user id, \<open>transact\<close>
  raises \<open>InvalidAmountError\<close>, for every environment and table and leaving the table as it
  was, exactly when the amount is empty or blank or the number that \<open>parseFloat\<close> reads
  from its longest numeric prefix is NaN, zero or negative; otherwise no call ever raises
  \<open>InvalidAmountError\<close>. In particular every amount that begins, after white space, with
  a minus sign, or with a character that is not a digit, a sign, a point or \<open>I\<close>, is
  rejected this way.
\<close>

lemma amount_check_rejects:
  assumes "trim (TransactRequest.idempotentKey request) \<noteq> []"
    and "trim (TransactRequest.userId request) \<noteq> []"
  shows "(trim (TransactRequest.amount request) = []
          \<or> isNaN (parseFloat (TransactRequest.amount request))
          \<or> js_le (parseFloat (TransactRequest.amount request)) (Fin 0)
         \<longrightarrow> (\<forall>e tbl. transact e request tbl
                        = (Inl (InvalidAmountError (TransactRequest.amount request)), tbl)))
     \<and> (\<not> (trim (TransactRequest.amount request) = []
             \<or> isNaN (parseFloat (TransactRequest.amount request))
             \<or> js_le (parseFloat (TransactRequest.amount request)) (Fin 0))
         \<longrightarrow> (\<forall>e tbl x. fst (transact e request tbl) \<noteq> Inl (InvalidAmountError x)))
     \<and> (\<forall>c r. dropWhile is_whitespace (TransactRequest.amount request) = c # r
                \<and> (c = CHR ''-'' \<or> c \<notin> set ''0123456789+-.I'')
         \<longrightarrow> (\<forall>e tbl. transact e request tbl
                        = (Inl (InvalidAmountError (TransactRequest.amount request)), tbl)))"
proof (intro conjI impI allI)
  fix e tbl
  assume "trim (TransactRequest.amount request) = []
          \<or> isNaN (parseFloat (TransactRequest.amount request))
          \<or> js_le (parseFloat (TransactRequest.amount request)) (Fin 0)"
  then have "validate request = Some (InvalidAmountError (TransactRequest.amount request))"
    by (rule validate_amount_rejected[OF assms])
  then show "transact e request tbl = (Inl (InvalidAmountError (TransactRequest.amount request)), tbl)"
    by (rule transact_invalid)
next
  fix e tbl x
  assume ok: "\<not> (trim (TransactRequest.amount request) = []
             \<or> isNaN (parseFloat (TransactRequest.amount request))
             \<or> js_le (parseFloat (TransactRequest.amount request)) (Fin 0))"
  show "fst (transact e request tbl) \<noteq> Inl (InvalidAmountError x)"
  proof (cases "validate request")
    case (Some err)
    then show ?thesis using validate_amount_accepted[OF ok, of x] by (simp add: transact_invalid)
  next
    case None
    show ?thesis
    proof (cases "transact_try e request (parseFloat (TransactRequest.amount request)) tbl")
      case (Pair r t)
      show ?thesis
      proof (cases r)
        case (Inl error)
        then have te: "transact_try e request (parseFloat (TransactRequest.amount request)) tbl
                       = (Inl error, t)"
          using Pair by simp
        from transact_try_errors[OF te] have "rethrown error \<noteq> InvalidAmountError x"
          by (auto simp add: rethrown_def)
        then show ?thesis by (simp add: transact_valid[OF None] te)
      next
        case (Inr resp)
        with Pair show ?thesis by (simp add: transact_valid[OF None])
      qed
    qed
  qed
next
  fix c r e tbl
  assume h: "dropWhile is_whitespace (TransactRequest.amount request) = c # r
                \<and> (c = CHR ''-'' \<or> c \<notin> set ''0123456789+-.I'')"
  have "isNaN (parseFloat (TransactRequest.amount request))
        \<or> js_le (parseFloat (TransactRequest.amount request)) (Fin 0)"
  proof (cases "c = CHR ''-''")
    case True
    then show ?thesis using h parseFloat_minus_rejected by blast
  next
    case False
    then have "parseFloat (TransactRequest.amount request) = NaN"
      using h parseFloat_not_numeric by blast
    then show ?thesis by (simp add: isNaN_def)
  qed
  then have "validate request = Some (InvalidAmountError (TransactRequest.amount request))"
    using validate_amount_rejected[OF assms] by blast
  then show "transact e request tbl = (Inl (InvalidAmountError (TransactRequest.amount request)), tbl)"
    by (rule transact_invalid)
qed

lemma amount_check_rejects_examples:
  "trim ''t1'' \<noteq> [] \<and> trim ''user1'' \<noteq> []
   \<and> js_le (parseFloat ''0'') (Fin 0)
   \<and> transact overtaken (request_of ''t1'' ''user1'' ''0'' ''credit'') seeded_table
       = (Inl (InvalidAmountError ''0''), seeded_table)
   \<and> dropWhile is_whitespace '' -100'' = CHR ''-'' # ''100''
   \<and> transact overtaken (request_of ''t1'' ''user1'' '' -100'' ''credit'') seeded_table
       = (Inl (InvalidAmountError '' -100''), seeded_table)
   \<and> isNaN (parseFloat ''abc'')
   \<and> transact overtaken (request_of ''t1'' ''user1'' ''abc'' ''credit'') seeded_table
       = (Inl (InvalidAmountError ''abc''), seeded_table)
   \<and> trim '''' = []
   \<and> transact overtaken (request_of ''t1'' ''user1'' '''' ''credit'') seeded_table
       = (Inl (InvalidAmountError ''''), seeded_table)
   \<and> \<not> (trim ''12abc'' = [] \<or> isNaN (parseFloat ''12abc'') \<or> js_le (parseFloat ''12abc'') (Fin 0))
   \<and> fst (transact clock_a (request_of ''t1'' ''user1'' ''12abc'' ''credit'') seeded_table)
       \<noteq> Inl (InvalidAmountError ''12abc'')"
proof -
  let ?rq = "\<lambda>a. request_of ''t1'' ''user1'' a ''credit''"
  have k: "trim ''t1'' \<noteq> []" by code_simp
  have u: "trim ''user1'' \<noteq> []" by code_simp
  have hk: "trim (TransactRequest.idempotentKey (?rq a)) \<noteq> []" for a
    using k by (simp add: request_of_def)
  have hu: "trim (TransactRequest.userId (?rq a)) \<noteq> []" for a
    using u by (simp add: request_of_def)
  have am: "TransactRequest.amount (?rq a) = a" for a by (simp add: request_of_def)
  have z: "js_le (parseFloat ''0'') (Fin 0)" by code_simp
  have m: "dropWhile is_whitespace '' -100'' = CHR ''-'' # ''100''" by code_simp
  have n: "isNaN (parseFloat ''abc'')" by code_simp
  have b: "trim '''' = []" by code_simp
  have p: "\<not> (trim ''12abc'' = [] \<or> isNaN (parseFloat ''12abc'') \<or> js_le (parseFloat ''12abc'') (Fin 0))"
    by code_simp
  have c0: "transact overtaken (?rq ''0'') seeded_table = (Inl (InvalidAmountError ''0''), seeded_table)"
    using amount_check_rejects[OF hk hu, of "''0''"] z by (simp add: am)
  have c1: "transact overtaken (?rq '' -100'') seeded_table
       = (Inl (InvalidAmountError '' -100''), seeded_table)"
    using amount_check_rejects[OF hk hu, of "'' -100''"] m by (simp only: am) blast
  have c2: "transact overtaken (?rq ''abc'') seeded_table = (Inl (InvalidAmountError ''abc''), seeded_table)"
    using amount_check_rejects[OF hk hu, of "''abc''"] n by (simp add: am)
  have c3: "transact overtaken (?rq '''') seeded_table = (Inl (InvalidAmountError ''''), seeded_table)"
    using amount_check_rejects[OF hk hu, of "''''"] b by (simp add: am)
  have c4: "fst (transact clock_a (?rq ''12abc'') seeded_table) \<noteq> Inl (InvalidAmountError ''12abc'')"
    using amount_check_rejects[OF hk hu, of "''12abc''"] p by (simp only: am) blast
  show ?thesis
    by (intro conjI) (rule k u z c0 m c1 n c2 b c3 p c4)+
qed

text \<open>
  Claim C6. The claim asks that an amount which is not a positive, finite decimal number
  is refused with \<open>InvalidAmountError\<close> before any store operation. The check reads the
  amount with \<open>parseFloat\<close>, which takes the longest numeric prefix and knows \<open>Infinity\<close>,
  and tests the result only for NaN and for being at most 0. So \<open>12abc\<close> and \<open>Infinity\<close>
  pass validation on the seeded table, where \<open>user1\<close> has 1000: a credit of \<open>12abc\<close> is
  carried out as a credit of 12 and stored; a debit of \<open>Infinity\<close> goes on to the store,
  is refused for insufficient funds, not as an invalid amount, and leaves a failed
  idempotency item. The sibling amounts \<open>abc\<close> and \<open>-100\<close> are refused as the claim says.
\<close>

theorem malformed_amounts_pass_validation:
  "validate (request_of ''t2'' ''user1'' ''12abc'' ''credit'') = None
   \<and> parseFloat ''12abc'' = Fin 12
   \<and> fst (transact clock_a (request_of ''t2'' ''user1'' ''12abc'' ''credit'') seeded_table)
       = Inr \<lparr>TransactionResponse.success = True, TransactionResponse.idempotentKey = ''t2'',
              TransactionResponse.userId = ''user1'', TransactionResponse.amount = ''12abc'',
              TransactionResponse.type = ''credit'', TransactionResponse.newBalance = Fin 1012,
              TransactionResponse.message = ''Transaction completed successfully''\<rparr>
   \<and> balances (snd (transact clock_a (request_of ''t2'' ''user1'' ''12abc'' ''credit'') seeded_table))
         (createUserBalanceKey ''user1'')
       = Some \<lparr>BalanceItem.userId = ''user1'', BalanceItem.balance = Fin 1012,
               BalanceItem.version = 2,
               BalanceItem.createdAt = ''2024-01-01T00:00:00.000Z'',
               BalanceItem.updatedAt = ''2024-03-01T10:00:00.000Z''\<rparr>
   \<and> validate (request_of ''t1'' ''user1'' ''Infinity'' ''debit'') = None
   \<and> parseFloat ''Infinity'' = PInf
   \<and> fst (transact clock_a (request_of ''t1'' ''user1'' ''Infinity'' ''debit'') seeded_table)
       = Inl (InsufficientFundsError ''user1'' (Fin 1000) PInf)
   \<and> fst (transact clock_a (request_of ''t1'' ''user1'' ''Infinity'' ''debit'') seeded_table)
       \<noteq> Inl (InvalidAmountError ''Infinity'')
   \<and> idempotency seeded_table (createIdempotencyKey ''t1'') = None
   \<and> idempotency (snd (transact clock_a (request_of ''t1'' ''user1'' ''Infinity'' ''debit'') seeded_table))
         (createIdempotencyKey ''t1'')
       = Some \<lparr>IdempotencyItem.idempotentKey = ''t1'', IdempotencyItem.userId = ''user1'',
               IdempotencyItem.amount = ''Infinity'', IdempotencyItem.type = ''debit'',
               IdempotencyItem.newBalance = Fin 0, IdempotencyItem.status = ''failed'',
               IdempotencyItem.timestamp = ''2024-03-01T10:00:00.000Z'',
               IdempotencyItem.ttl = Some 1711879200\<rparr>
   \<and> fst (transact clock_a (request_of ''t3'' ''user1'' ''abc'' ''credit'') seeded_table)
       = Inl (InvalidAmountError ''abc'')
   \<and> fst (transact clock_a (request_of ''t4'' ''user1'' ''-100'' ''credit'') seeded_table)
       = Inl (InvalidAmountError ''-100'')"
  by code_simp

section \<open>Insufficient funds\<close>

text \<open>
  Claim C3. A validated debit with a new token, whose two reads succeed, against a stored
  balance that is a double (as every balance the service writes is; absent counts as 0)
  and is smaller than the amount:
  \<open>transact\<close> raises \<open>InsufficientFundsError\<close> with the user id, the balance read and the
  amount, and the balance items and ledger items of the table it leaves are those the
  other clients left; when the call runs alone they are those of the table it was given.
\<close>

theorem debit_beyond_balance_is_refused:
  assumes "validate request = None"
    and "getIdempotencyFault e = None" and "getBalanceFault e = None"
    and "idempotency tbl (createIdempotencyKey (TransactRequest.idempotentKey request)) = None"
    and "TransactRequest.type request = ''debit''"
    and "representable (currentBalanceOf (balances (beforeGetBalance e tbl)
           (createUserBalanceKey (TransactRequest.userId request))))"
    and "js_less (currentBalanceOf (balances (beforeGetBalance e tbl)
           (createUserBalanceKey (TransactRequest.userId request))))
           (parseFloat (TransactRequest.amount request))"
  shows "fst (transact e request tbl) =
           Inl (InsufficientFundsError (TransactRequest.userId request)
                  (currentBalanceOf (balances (beforeGetBalance e tbl)
                     (createUserBalanceKey (TransactRequest.userId request))))
                  (parseFloat (TransactRequest.amount request)))
     \<and> balances (snd (transact e request tbl)) = balances (beforePut e (beforeGetBalance e tbl))
     \<and> transactions (snd (transact e request tbl)) = transactions (beforePut e (beforeGetBalance e tbl))
     \<and> (alone e \<longrightarrow> balances (snd (transact e request tbl)) = balances tbl
                    \<and> transactions (snd (transact e request tbl)) = transactions tbl)"
proof -
  let ?cur = "currentBalanceOf (balances (beforeGetBalance e tbl)
           (createUserBalanceKey (TransactRequest.userId request)))"
  let ?amt = "parseFloat (TransactRequest.amount request)"
  have neg: "js_less (js_sub ?cur ?amt) (Fin 0)"
    by (rule debit_exceeding_balance[OF assms(6) refl assms(7)])
  have "transact_try e request ?amt tbl
        = (Inl (Balance (InsufficientFundsError (TransactRequest.userId request) ?cur ?amt)),
           beforeGetBalance e tbl)"
    using neg by (simp add: transact_try_fresh[OF assms(2,3,4)] Let_def assms(5))
  then have t: "transact e request tbl
        = (Inl (InsufficientFundsError (TransactRequest.userId request) ?cur ?amt),
           recordFailure e request (beforeGetBalance e tbl))"
    by (simp add: transact_valid[OF assms(1)] rethrown_def)
  show ?thesis by (simp add: t recordFailure_frame alone_def)
qed

theorem debit_beyond_balance_is_refused_witness:
  "validate (request_of ''t9'' ''user2'' ''500.01'' ''debit'') = None
   \<and> representable (Fin 500)
   \<and> currentBalanceOf (balances (beforeGetBalance clock_a seeded_table) (createUserBalanceKey ''user2''))
       = Fin 500
   \<and> js_less (Fin 500) (parseFloat ''500.01'')
   \<and> fst (transact clock_a (request_of ''t9'' ''user2'' ''500.01'' ''debit'') seeded_table)
       = Inl (InsufficientFundsError ''user2'' (Fin 500) (parseFloat ''500.01''))
   \<and> balances (snd (transact clock_a (request_of ''t9'' ''user2'' ''500.01'' ''debit'') seeded_table))
       = balances seeded_table
   \<and> transactions (snd (transact clock_a (request_of ''t9'' ''user2'' ''500.01'' ''debit'') seeded_table))
       = transactions seeded_table"
proof -
  let ?r = "request_of ''t9'' ''user2'' ''500.01'' ''debit''"
  have u: "TransactRequest.userId ?r = ''user2''" "TransactRequest.amount ?r = ''500.01''"
    by (simp_all add: request_of_def)
  have cb: "currentBalanceOf (balances (beforeGetBalance clock_a seeded_table)
              (createUserBalanceKey ''user2'')) = Fin 500"
    by code_simp
  have h1: "validate ?r = None" by code_simp
  have h2: "getIdempotencyFault clock_a = None" by code_simp
  have h3: "getBalanceFault clock_a = None" by code_simp
  have h4: "idempotency seeded_table (createIdempotencyKey (TransactRequest.idempotentKey ?r)) = None"
    by code_simp
  have h5: "TransactRequest.type ?r = ''debit''" by (simp add: request_of_def)
  have rp: "representable (Fin 500)" by code_simp
  have lt: "js_less (Fin 500) (parseFloat ''500.01'')" by code_simp
  have h6: "representable (currentBalanceOf (balances (beforeGetBalance clock_a seeded_table)
           (createUserBalanceKey (TransactRequest.userId ?r))))"
    using rp by (simp only: u cb)
  have h7: "js_less (currentBalanceOf (balances (beforeGetBalance clock_a seeded_table)
           (createUserBalanceKey (TransactRequest.userId ?r))))
           (parseFloat (TransactRequest.amount ?r))"
    using lt by (simp only: u cb)
  have al: "alone clock_a" by (simp add: alone_def clock_a_def quiet_def)
  note c = debit_beyond_balance_is_refused[OF h1 h2 h3 h4 h5 h6 h7]
  have c1: "fst (transact clock_a ?r seeded_table)
       = Inl (InsufficientFundsError ''user2'' (Fin 500) (parseFloat ''500.01''))"
    using c by (simp only: u cb)
  have c2: "balances (snd (transact clock_a ?r seeded_table)) = balances seeded_table"
    using c al by blast
  have c3: "transactions (snd (transact clock_a ?r seeded_table)) = transactions seeded_table"
    using c al by blast
  show ?thesis
    by (intro conjI) (rule h1 rp cb lt c1 c2 c3)+
qed

section \<open>Sequences of operations\<close>

text \<open>
  Claim C4, as amended. For calls made one after the other on one user, each running
  alone and each with a token of its own that the table does not hold, the final balance
  is the initial balance (0 when the user has no item) with the amount of every call that
  reported success added, for a credit, or subtracted, for a debit, in the order of the
  calls and in the arithmetic of JavaScript numbers (each addition and subtraction rounded
  to binary64). Each successful call computes the balance it read plus or minus the
  amount, in that arithmetic, stores it and returns it.
\<close>

theorem balance_is_fold_of_successful_operations:
  assumes "\<forall>(e, request) \<in> set calls. alone e \<and> TransactRequest.userId request = uid"
    and "distinct (map (\<lambda>(e, request). TransactRequest.idempotentKey request) calls)"
    and "\<forall>(e, request) \<in> set calls.
           idempotency tbl (createIdempotencyKey (TransactRequest.idempotentKey request)) = None"
  shows "currentBalanceOf (balances (snd (run calls tbl)) (createUserBalanceKey uid))
         = foldl applied (currentBalanceOf (balances tbl (createUserBalanceKey uid)))
             (zip (map snd calls) (fst (run calls tbl)))
     \<and> (\<forall>e request t resp t'.
           alone e \<and> idempotency t (createIdempotencyKey (TransactRequest.idempotentKey request)) = None
           \<and> transact e request t = (Inr resp, t')
         \<longrightarrow> TransactionResponse.newBalance resp
               = (if TransactRequest.type request = ''credit''
                  then js_add (currentBalanceOf (balances t (createUserBalanceKey (TransactRequest.userId request))))
                         (parseFloat (TransactRequest.amount request))
                  else js_sub (currentBalanceOf (balances t (createUserBalanceKey (TransactRequest.userId request))))
                         (parseFloat (TransactRequest.amount request)))
             \<and> currentBalanceOf (balances t' (createUserBalanceKey (TransactRequest.userId request)))
               = TransactionResponse.newBalance resp)"
proof (intro conjI allI impI)
  show "currentBalanceOf (balances (snd (run calls tbl)) (createUserBalanceKey uid))
         = foldl applied (currentBalanceOf (balances tbl (createUserBalanceKey uid)))
             (zip (map snd calls) (fst (run calls tbl)))"
    by (rule run_balance_fold[OF assms])
next
  fix e request t resp t'
  assume h: "alone e \<and> idempotency t (createIdempotencyKey (TransactRequest.idempotentKey request)) = None
           \<and> transact e request t = (Inr resp, t')"
  then have al: "alone e"
    and fr: "idempotency t (createIdempotencyKey (TransactRequest.idempotentKey request)) = None"
    and tr: "transact e request t = (Inr resp, t')"
    by simp_all
  note st = transact_step[OF al fr tr]
  have su: "succeeded (Inr resp)" using st(4) by (simp add: succeeded_def)
  then have nb: "TransactionResponse.newBalance resp
      = currentBalanceOf (balances t' (createUserBalanceKey (TransactRequest.userId request)))"
    using st(2) by simp
  show "TransactionResponse.newBalance resp
               = (if TransactRequest.type request = ''credit''
                  then js_add (currentBalanceOf (balances t (createUserBalanceKey (TransactRequest.userId request))))
                         (parseFloat (TransactRequest.amount request))
                  else js_sub (currentBalanceOf (balances t (createUserBalanceKey (TransactRequest.userId request))))
                         (parseFloat (TransactRequest.amount request)))"
    using st(1) su by (simp add: nb applied_def)
  show "currentBalanceOf (balances t' (createUserBalanceKey (TransactRequest.userId request)))
               = TransactionResponse.newBalance resp"
    by (simp add: nb)
qed

theorem balance_is_fold_of_successful_operations_witness:
  "map (\<lambda>(e, request). (alone e, TransactRequest.userId request)) precision_calls
     = [(True, ''u1''), (True, ''u1''), (True, ''u1'')]
   \<and> distinct (map (\<lambda>(e, request). TransactRequest.idempotentKey request) precision_calls)
   \<and> map (\<lambda>(e, request).
           idempotency empty_table (createIdempotencyKey (TransactRequest.idempotentKey request)))
         precision_calls = [None, None, None]
   \<and> map succeeded (fst (run precision_calls empty_table)) = [True, True, True]
   \<and> currentBalanceOf (balances (snd (run precision_calls empty_table)) (createUserBalanceKey ''u1''))
       = js_sub (js_add (js_add (Fin 0) (parseFloat ''0.1'')) (parseFloat ''0.2'')) (parseFloat ''0.3'')"
proof -
  have al: "alone clock_a" "alone clock_b" by (simp_all add: alone_def clock_a_def clock_b_def quiet_def)
  have h1: "\<forall>(e, request) \<in> set precision_calls. alone e \<and> TransactRequest.userId request = ''u1''"
    using al by (simp add: precision_calls_def request_of_def)
  have h2: "distinct (map (\<lambda>(e, request). TransactRequest.idempotentKey request) precision_calls)"
    by (simp add: precision_calls_def request_of_def)
  have h3: "\<forall>(e, request) \<in> set precision_calls.
           idempotency empty_table (createIdempotencyKey (TransactRequest.idempotentKey request)) = None"
    by (simp add: precision_calls_def empty_table_def)
  have s: "map succeeded (fst (run precision_calls empty_table)) = [True, True, True]"
    by code_simp
  have f: "foldl applied (currentBalanceOf (balances empty_table (createUserBalanceKey ''u1'')))
             (zip (map snd precision_calls) (fst (run precision_calls empty_table)))
           = js_sub (js_add (js_add (Fin 0) (parseFloat ''0.1'')) (parseFloat ''0.2'')) (parseFloat ''0.3'')"
    by code_simp
  have c: "currentBalanceOf (balances (snd (run precision_calls empty_table)) (createUserBalanceKey ''u1''))
       = js_sub (js_add (js_add (Fin 0) (parseFloat ''0.1'')) (parseFloat ''0.2'')) (parseFloat ''0.3'')"
    using balance_is_fold_of_successful_operations[OF h1 h2 h3] f by simp
  have w1: "map (\<lambda>(e, request). (alone e, TransactRequest.userId request)) precision_calls
     = [(True, ''u1''), (True, ''u1''), (True, ''u1'')]"
    using al by (simp add: precision_calls_def request_of_def)
  have w3: "map (\<lambda>(e, request).
           idempotency empty_table (createIdempotencyKey (TransactRequest.idempotentKey request)))
         precision_calls = [None, None, None]"
    by (simp add: precision_calls_def empty_table_def)
  show ?thesis
    by (intro conjI) (rule w1 h2 w3 s c)+
qed

text \<open>
  The claim as stated, with the exact sum, fails on the sequence of the repository's
  precision test: credits of 0.1 and 0.2 and a debit of 0.3 on a new user all succeed and
  leave the balance \<open>2^-54\<close>, where the decimal amounts sum to 0 and the doubles read from
  them to \<open>2^-55\<close>.
\<close>

theorem final_balance_is_not_exact_sum:
  "map succeeded (fst (run precision_calls empty_table)) = [True, True, True]
   \<and> currentBalanceOf (balances empty_table (createUserBalanceKey ''u1'')) = Fin 0
   \<and> currentBalanceOf (balances (snd (run precision_calls empty_table)) (createUserBalanceKey ''u1''))
       = Fin (1 / 2 ^ 54)
   \<and> (0 + 1 / 10 + 2 / 10 - 3 / 10 :: rat) = 0
   \<and> parseFloat ''0.1'' = Fin (3602879701896397 / 36028797018963968)
   \<and> parseFloat ''0.2'' = Fin (3602879701896397 / 18014398509481984)
   \<and> parseFloat ''0.3'' = Fin (5404319552844595 / 18014398509481984)
   \<and> (0 + 3602879701896397 / 36028797018963968 + 3602879701896397 / 18014398509481984
         - 5404319552844595 / 18014398509481984 :: rat) = 1 / 2 ^ 55"
  by code_simp

section \<open>Precision of the arithmetic\<close>




section \<open>User ids and keys\<close>

text \<open>
  Claim C10. The user id is used as it is given, untrimmed. A request whose user id is
  not empty after trimming passes the user-id check of \<open>transact\<close>, whatever white space
  surrounds the id, and \<open>getCurrentBalance\<close> accepts it and reads the item under the key
  \<open>USER#<id>\<close>, \<open>BALANCE\<close> with the id as given. A call that runs alone leaves every balance
  item under another key as it was, in particular that of an id which differs from the
  caller's only in surrounding white space; and the balance a successful call with a new
  token reports is the one it stores under the key of the id as given.
\<close>

theorem user_id_is_used_untrimmed:
  assumes "trim (TransactRequest.userId request) \<noteq> []"
    and "uid' \<noteq> TransactRequest.userId request"
  shows "validate request \<noteq>
           Some (BalanceError ''Invalid userId: must be a non-empty string'' ''INVALID_USER_ID'')
     \<and> fst (getCurrentBalance None (TransactRequest.userId request) tbl) =
         Inr \<lparr>BalanceResponse.userId = TransactRequest.userId request,
              BalanceResponse.balance =
                currentBalanceOf (balances tbl (''USER#'' @ TransactRequest.userId request, ''BALANCE''))\<rparr>
     \<and> createUserBalanceKey uid' \<noteq> createUserBalanceKey (TransactRequest.userId request)
     \<and> (alone e \<longrightarrow>
           balances (snd (transact e request tbl)) (createUserBalanceKey uid')
             = balances tbl (createUserBalanceKey uid'))
     \<and> (\<forall>resp. idempotency tbl (createIdempotencyKey (TransactRequest.idempotentKey request)) = None
             \<and> fst (transact e request tbl) = Inr resp
           \<longrightarrow> currentBalanceOf (balances (snd (transact e request tbl))
                    (''USER#'' @ TransactRequest.userId request, ''BALANCE''))
                 = TransactionResponse.newBalance resp)"
proof -
  let ?uid = "TransactRequest.userId request"
  have a: "validate request \<noteq>
           Some (BalanceError ''Invalid userId: must be a non-empty string'' ''INVALID_USER_ID'')"
    by (rule validate_accepts_user[OF assms(1)])
  have b: "fst (getCurrentBalance None ?uid tbl) =
         Inr \<lparr>BalanceResponse.userId = ?uid,
              BalanceResponse.balance = currentBalanceOf (balances tbl (''USER#'' @ ?uid, ''BALANCE''))\<rparr>"
    using assms(1)
    by (auto simp add: getCurrentBalance_def GetCommand_def createUserBalanceKey_def
          currentBalanceOf_def trim_Nil split: option.splits)
  have c: "createUserBalanceKey uid' \<noteq> createUserBalanceKey ?uid"
    using assms(2) by (simp add: createUserBalanceKey_inj)
  have d: "balances (snd (transact e request tbl)) (createUserBalanceKey uid')
             = balances tbl (createUserBalanceKey uid')" if "alone e"
    by (rule transact_balances_frame[OF that c])
  have f: "currentBalanceOf (balances (snd (transact e request tbl)) (''USER#'' @ ?uid, ''BALANCE''))
                 = TransactionResponse.newBalance resp"
    if h: "idempotency tbl (createIdempotencyKey (TransactRequest.idempotentKey request)) = None
             \<and> fst (transact e request tbl) = Inr resp" for resp
  proof -
    have v: "validate request = None"
      using h by (cases "validate request") (simp_all add: transact_def)
    obtain t where tv: "transact_try e request (parseFloat (TransactRequest.amount request)) tbl = (Inr resp, t)"
      and st: "snd (transact e request tbl) = t"
      using h by (auto simp add: transact_valid[OF v] split: prod.splits sum.splits)
    have g1: "getIdempotencyFault e = None"
      using tv by (auto simp add: transact_try_def GetCommand_def split: option.splits)
    have g2: "getBalanceFault e = None"
      using tv h g1 by (auto simp add: transact_try_def GetCommand_def Let_def split: option.splits)
    obtain br ver nb where cm: "commit e request (parseFloat (TransactRequest.amount request))
        br ver nb (beforeCommit e (beforeGetBalance e tbl)) = (Inr resp, t)"
      using tv h by (auto simp add: transact_try_fresh[OF g1 g2] Let_def split: if_splits)
    from commit_accepted(3,4)[OF cm] show ?thesis
      by (auto simp add: st createUserBalanceKey_def currentBalanceOf_def)
  qed
  show ?thesis using a b c d f by blast
qed

theorem user_id_is_used_untrimmed_witness:
  "trim '' user1'' \<noteq> [] \<and> trim '' user1'' = trim ''user1''
   \<and> validate (request_of ''w'' '' user1'' ''25'' ''credit'') = None
   \<and> fst (getCurrentBalance None '' user1'' seeded_table)
       = Inr \<lparr>BalanceResponse.userId = '' user1'', BalanceResponse.balance = Fin 0\<rparr>
   \<and> fst (transact clock_a (request_of ''w'' '' user1'' ''25'' ''credit'') seeded_table)
       = Inr \<lparr>TransactionResponse.success = True, TransactionResponse.idempotentKey = ''w'',
              TransactionResponse.userId = '' user1'', TransactionResponse.amount = ''25'',
              TransactionResponse.type = ''credit'', TransactionResponse.newBalance = Fin 25,
              TransactionResponse.message = ''Transaction completed successfully''\<rparr>
   \<and> balances (snd (transact clock_a (request_of ''w'' '' user1'' ''25'' ''credit'') seeded_table))
         (createUserBalanceKey ''user1'')
       = Some (seedItem ''user1'' (Fin 1000))
   \<and> currentBalanceOf (balances (snd (transact clock_a (request_of ''w'' '' user1'' ''25'' ''credit'') seeded_table))
         (''USER# user1'', ''BALANCE'')) = Fin 25"
proof -
  let ?r = "request_of ''w'' '' user1'' ''25'' ''credit''"
  let ?resp = "\<lparr>TransactionResponse.success = True, TransactionResponse.idempotentKey = ''w'',
              TransactionResponse.userId = '' user1'', TransactionResponse.amount = ''25'',
              TransactionResponse.type = ''credit'', TransactionResponse.newBalance = Fin 25,
              TransactionResponse.message = ''Transaction completed successfully''\<rparr>"
  have u: "TransactRequest.userId ?r = '' user1''" by (simp add: request_of_def)
  have t1: "trim '' user1'' \<noteq> []" by code_simp
  have t2: "trim '' user1'' = trim ''user1''" by code_simp
  have h1: "trim (TransactRequest.userId ?r) \<noteq> []" by (simp add: u t1)
  have h2: "''user1'' \<noteq> TransactRequest.userId ?r" by (simp add: request_of_def)
  have v: "validate ?r = None" by code_simp
  have al: "alone clock_a" by (simp add: alone_def clock_a_def quiet_def)
  have fr: "idempotency seeded_table (createIdempotencyKey (TransactRequest.idempotentKey ?r)) = None"
    by code_simp
  have ok: "fst (transact clock_a ?r seeded_table) = Inr ?resp" by code_simp
  have s0: "balances seeded_table (''USER# user1'', ''BALANCE'') = None" by code_simp
  have s1: "balances seeded_table (createUserBalanceKey ''user1'') = Some (seedItem ''user1'' (Fin 1000))"
    by code_simp
  note c = user_id_is_used_untrimmed[OF h1 h2, of seeded_table clock_a]
  have c2: "fst (getCurrentBalance None '' user1'' seeded_table)
       = Inr \<lparr>BalanceResponse.userId = '' user1'', BalanceResponse.balance = Fin 0\<rparr>"
    using c by (simp add: u s0 currentBalanceOf_def)
  have c4: "balances (snd (transact clock_a ?r seeded_table)) (createUserBalanceKey ''user1'')
       = Some (seedItem ''user1'' (Fin 1000))"
    using c al s1 by simp
  have c5: "currentBalanceOf (balances (snd (transact clock_a ?r seeded_table))
         (''USER# user1'', ''BALANCE'')) = Fin 25"
    using c fr ok by (simp add: u)
  show ?thesis
    by (intro conjI) (rule t1 t2 v c2 ok c4 c5)+
qed

end
